theory Spec2Isabelle
  imports Main "HOL-Library.Word"
begin

unbundle bit_operations_syntax

section \<open>Go values used by \<open>component/control/control_plane.go\<close>\<close>

type_synonym u8 = "8 word"
type_synonym u16 = "16 word"
type_synonym u32 = "32 word"

subsection \<open>Errors\<close>

text \<open>
  A Go \<open>error\<close> is a message together with the error it wraps, if any.
  \<open>New m\<close> is \<open>errors.New(m)\<close> (also a \<open>fmt.Errorf\<close> without \<open>%w\<close>);
  \<open>Wrap m e\<close> is the result of a \<open>fmt.Errorf\<close> whose format has one \<open>%w\<close> bound to
  \<open>e\<close>, \<open>m\<close> being the whole formatted message. Go compares sentinel errors by identity;
  here two errors are the same when they are built the same way.
\<close>

datatype error = New string | Wrap string error

fun Error :: "error \<Rightarrow> string" where
  "Error (New m) = m"
| "Error (Wrap m e) = m"

text \<open>\<open>errors.Is\<close>: the target is the error itself or is found along its chain of wrapped errors.\<close>

fun Is :: "error \<Rightarrow> error \<Rightarrow> bool" where
  "Is (New m) target = (New m = target)"
| "Is (Wrap m e) target = (Wrap m e = target \<or> Is e target)"

text \<open>\<open>fmt.Errorf(p + "%w", err)\<close>, \<open>fmt.Errorf(p + "%v", err)\<close> and \<open>fmt.Errorf("%w; %v", err, e)\<close>.\<close>

definition Errorf_w :: "string \<Rightarrow> error \<Rightarrow> error" where
  "Errorf_w p err = Wrap (p @ Error err) err"

definition Errorf_v :: "string \<Rightarrow> error \<Rightarrow> error" where
  "Errorf_v p err = New (p @ Error err)"

definition Errorf_w_v :: "error \<Rightarrow> error \<Rightarrow> error" where
  "Errorf_w_v err e = Wrap (Error err @ ''; '' @ Error e) err"

subsection \<open>Strings\<close>

fun HasPrefix :: "string \<Rightarrow> string \<Rightarrow> bool" where
  "HasPrefix s [] = True"
| "HasPrefix [] (p # ps) = False"
| "HasPrefix (c # cs) (p # ps) = (c = p \<and> HasPrefix cs ps)"

text \<open>\<open>strings.Index(s, substr)\<close>: the index of the first occurrence, \<open>-1\<close> when there is none.\<close>

fun Index_from :: "int \<Rightarrow> string \<Rightarrow> string \<Rightarrow> int" where
  "Index_from i [] substr = (if substr = [] then i else - 1)"
| "Index_from i (c # cs) substr =
     (if HasPrefix (c # cs) substr then i else Index_from (i + 1) cs substr)"

definition strings_Index :: "string \<Rightarrow> string \<Rightarrow> int" where
  "strings_Index s substr = Index_from 0 s substr"

definition Contains :: "string \<Rightarrow> string \<Rightarrow> bool" where
  "Contains s substr = (strings_Index s substr \<ge> 0)"

text \<open>\<open>strings.SplitN(s, ":", 2)\<close>: cut at the first colon, if there is one.\<close>

definition SplitN_colon_2 :: "string \<Rightarrow> string list" where
  "SplitN_colon_2 s =
     (let before = takeWhile (\<lambda>c. c \<noteq> CHR '':'') s; rest = dropWhile (\<lambda>c. c \<noteq> CHR '':'') s
      in if rest = [] then [s] else [before, tl rest])"

text \<open>\<open>filepath.Join(dir, name)\<close> for a clean \<open>dir\<close> and a plain file name (empty elements are
  ignored; the cleaning of \<open>..\<close> and doubled separators is not modelled).\<close>

definition filepath_Join :: "string \<Rightarrow> string \<Rightarrow> string" where
  "filepath_Join dir name =
     (if name = [] then dir else if dir = [] then name else dir @ ''/'' @ name)"

subsection \<open>Addresses\<close>

text \<open>\<open>netip.Addr\<close>: an IPv4 address of 4 bytes or an IPv6 address of 16 bytes (an IPv4-mapped
  IPv6 address is an IPv6 address). \<open>netip.Prefix\<close> is an address and a number of bits,
  \<open>netip.AddrPort\<close> an address and a port.\<close>

datatype Addr = Addr4 "u8 list" | Addr6 "u8 list"

type_synonym Prefix = "Addr \<times> nat"

type_synonym AddrPort = "Addr \<times> u16"

text \<open>The original-destination header \<open>AddrHdr\<close> of an intercepted datagram: the
  destination and the port (its declaration is in another file of the package).\<close>

record AddrHdr =
  Dest :: Addr
  Port :: u16

section \<open>The world outside the Control Plane\<close>

subsection \<open>Kernel objects\<close>

text \<open>\<open>bpfIfIp\<close>, the per-interface address record of \<open>IfindexIpMap\<close>: two \<open>[4]uint32\<close>
  arrays and two presence flags. Its zero value has all-zero arrays and both flags unset.\<close>

record bpfIfIp =
  Ip4 :: "u32 list"
  Ip6 :: "u32 list"
  HasIp4 :: bool
  HasIp6 :: bool

definition zero_bpfIfIp :: bpfIfIp where
  "zero_bpfIfIp = \<lparr>Ip4 = [0, 0, 0, 0], Ip6 = [0, 0, 0, 0], HasIp4 = False, HasIp6 = False\<rparr>"

text \<open>\<open>netlink.GenericQdisc\<close> and \<open>netlink.BpfFilter\<close>, with the attributes \<open>BindLink\<close> sets.\<close>

record GenericQdisc =
  qLinkIndex :: int
  qHandle :: u32
  qParent :: u32
  QdiscType :: string

record BpfFilter =
  fLinkIndex :: int
  fParent :: u32
  fHandle :: u32
  Protocol :: u16
  Priority :: u16
  Fd :: int
  fName :: string
  DirectAction :: bool

text \<open>A network interface as \<open>netlink.LinkByName\<close> and \<open>netlink.AddrList\<close> show it: its
  index and the \<open>IP\<close> byte slices of its addresses, in the order the kernel lists them.\<close>

record Link =
  Index :: int
  Addrs :: "u8 list list"

subsection \<open>Requests, injected failures and the log\<close>

text \<open>
  Every call that leaves the process is a request. The world keeps the requests made so far
  (\<open>trace\<close>) and decides from them whether the next one fails (\<open>fault\<close>): any deterministic
  pattern of failures of the kernel is one such function.
\<close>

datatype request =
    ParamMap_Update u32 u32
  | IfindexIpMap_Update u32 bpfIfIp
  | bpfObjects_Close
  | LinkByName string
  | AddrList int
  | QdiscAdd GenericQdisc
  | QdiscDel GenericQdisc
  | FilterAdd BpfFilter
  | FilterDel BpfFilter
  | Listen string string
  | ListenUDP string u16
  | UDPConn_Close u16
  | Listener_Close u16

datatype Level = ErrorLevel | WarnLevel | TraceLevel

text \<open>An argument of a log call: a string, an error, or the text of an \<open>AddrPort\<close> (kept as
  the value; the zero \<open>AddrPort\<close> prints as \<open>invalid AddrPort\<close>).\<close>

datatype logarg = S string | E error | P AddrPort

text \<open>A call of the logger: its level, its format string and its arguments
  (\<open>Warnln\<close> has no format string).\<close>

type_synonym LogEntry = "Level \<times> string \<times> logarg list"

text \<open>A goroutine started for one accepted connection (by its handle) or one datagram:
  the handler and its arguments.\<close>

type_synonym Conn = nat

datatype task = HandleConn Conn | HandlePkt "u8 list" AddrPort AddrHdr

record world =
  logs :: "LogEntry list"
  goroutines :: "task list"
  trace :: "request list"
  fault :: "request list \<Rightarrow> request \<Rightarrow> error option"
  ParamMap :: "u32 \<rightharpoonup> u32"
  IfindexIpMap :: "u32 \<rightharpoonup> bpfIfIp"
  bpfClosed :: bool
  links :: "string \<rightharpoonup> Link"
  qdiscs :: "GenericQdisc list"
  filters :: "BpfFilter list"
  ctxDone :: "nat \<Rightarrow> bool"
  nextCtx :: nat

definition logf :: "Level \<Rightarrow> string \<Rightarrow> logarg list \<Rightarrow> world \<Rightarrow> world" where
  "logf lvl fmt args w = w\<lparr>logs := logs w @ [(lvl, fmt, args)]\<rparr>"

text \<open>A request is recorded, then fails if the world says so, and otherwise does what the
  kernel does with it.\<close>

definition attempt :: "request \<Rightarrow> (world \<Rightarrow> error option \<times> world) \<Rightarrow> world \<Rightarrow> error option \<times> world" where
  "attempt r effect w =
     (let w1 = w\<lparr>trace := trace w @ [r]\<rparr>
      in case fault w (trace w) r of Some e \<Rightarrow> (Some e, w1) | None \<Rightarrow> effect w1)"

subsection \<open>Values the Control Plane holds\<close>

text \<open>Types declared in other packages of the repository: a dialer is kept by its label,
  domain sets and DNS cache entries are opaque.\<close>

datatype Dialer = Dialer string

typedecl DomainSet

typedecl dnsCache

datatype DialerSelectionPolicyKind =
  DialerSelectionPolicy_Fixed | DialerSelectionPolicy_MinAverage10Latencies

record DialerSelectionPolicy =
  Policy :: DialerSelectionPolicyKind
  FixedIndex :: int

record DialerGroup =
  Name :: string
  Dialers :: "Dialer list"
  selectionPolicy :: DialerSelectionPolicy

section \<open>The Control Plane\<close>

text \<open>A teardown action, Go's \<open>func() error\<close>: it acts on the world and may fail.\<close>

type_synonym deferFunc = "world \<Rightarrow> error option \<times> world"

text \<open>\<open>ControlPlane\<close>. The logger, the loaded kernel objects (\<open>bpf\<close>) and the mutex are not
  fields here: the log and the kernel maps are part of the world.\<close>

record ControlPlane =
  outbounds :: "DialerGroup list"
  outboundName2Id :: "string \<rightharpoonup> u8"
  SimulatedLpmTries :: "Prefix list list"
  SimulatedDomainSet :: "DomainSet list"
  Final :: string
  dnsCache :: "string \<rightharpoonup> dnsCache"
  epoch :: u32
  deferFuncs :: "deferFunc list"

subsection \<open>\<open>Close\<close>\<close>

text \<open>
  \<open>for i := len(c.deferFuncs) - 1; i >= 0; i--\<close>: the loop of \<open>Close\<close> from index \<open>i\<close> on,
  \<open>err\<close> being the error combined so far.
\<close>

function Close_loop :: "deferFunc list \<Rightarrow> int \<Rightarrow> error option \<Rightarrow> world \<Rightarrow> error option \<times> world" where
  "Close_loop fs i err w =
     (if i \<ge> 0 then
        (case (fs ! nat i) w of
           (Some e, w') \<Rightarrow>
             (case err of
                Some err0 \<Rightarrow> Close_loop fs (i - 1) (Some (Errorf_w_v err0 e)) w'
              | None \<Rightarrow> Close_loop fs (i - 1) (Some e) w')
         | (None, w') \<Rightarrow> Close_loop fs (i - 1) err w')
      else (err, w))"
  by pat_completeness auto
termination
  by (relation "measure (\<lambda>(fs, i, err, w). nat (i + 1))") auto

declare Close_loop.simps [simp del]

definition Close :: "ControlPlane \<Rightarrow> world \<Rightarrow> error option \<times> world" where
  "Close c w = Close_loop (deferFuncs c) (int (length (deferFuncs c)) - 1) None w"

text \<open>What the specification says of teardown, in its own words: every action of a list is
  invoked once, in the order of the list, whatever the earlier ones returned
  (\<open>invoke_each\<close>); the failures among the results (\<open>failures\<close>) are combined into one error,
  none when nothing failed (\<open>combined\<close>), whose message joins theirs (\<open>joined\<close>).\<close>

fun invoke_each :: "deferFunc list \<Rightarrow> world \<Rightarrow> error option list \<times> world" where
  "invoke_each [] w = ([], w)"
| "invoke_each (f # fs) w =
     (case f w of (r, w1) \<Rightarrow> (case invoke_each fs w1 of (rs, w2) \<Rightarrow> (r # rs, w2)))"

fun failures :: "error option list \<Rightarrow> error list" where
  "failures [] = []"
| "failures (None # rs) = failures rs"
| "failures (Some e # rs) = e # failures rs"

fun combined :: "error list \<Rightarrow> error option" where
  "combined [] = None"
| "combined (e # es) = Some (foldl Errorf_w_v e es)"

fun joined :: "string list \<Rightarrow> string" where
  "joined [] = []"
| "joined [m] = m"
| "joined (m # m' # ms) = m @ ''; '' @ joined (m' # ms)"

text \<open>The same loop by recursion over the actions still to be invoked, for the proofs.\<close>

fun run_all :: "deferFunc list \<Rightarrow> error option \<Rightarrow> world \<Rightarrow> error option \<times> world" where
  "run_all [] err w = (err, w)"
| "run_all (f # fs) err w =
     (case f w of
        (Some e, w') \<Rightarrow>
          run_all fs (Some (case err of Some err0 \<Rightarrow> Errorf_w_v err0 e | None \<Rightarrow> e)) w'
      | (None, w') \<Rightarrow> run_all fs err w')"

fun add_failures :: "error option \<Rightarrow> error list \<Rightarrow> error option" where
  "add_failures err [] = err"
| "add_failures None (e # es) = Some (foldl Errorf_w_v e es)"
| "add_failures (Some err0) es = Some (foldl Errorf_w_v err0 es)"

section \<open>What \<open>control_plane.go\<close> leaves open\<close>

text \<open>
  \<open>control_plane.go\<close> calls into other packages of the repository (\<open>common\<close>,
  \<open>common/consts\<close>, \<open>component/routing\<close>, \<open>component/outbound\<close>), into other files of
  \<open>component/control\<close> and into libraries (\<open>rlimit\<close>, \<open>os\<close>, the generated loader of the
  kernel objects). Their constants and functions are parameters of the model, collected in
  one record; \<open>'r\<close> is the type of a routing rule and \<open>'b\<close> that of the routing matcher
  builder. A function that acts outside the process takes the world and returns the new one.
\<close>

record ('r, 'b) env =
  BpfPinRoot :: string
  AppName :: string
  DisableL4TxChecksumKey :: u32
  DisableL4RxChecksumKey :: u32
  DisableL4ChecksumPolicy_SetZero :: u32
  EpochKey :: u32
  BigEndianTproxyPortKey :: u32
  OutboundDirect_String :: string
  Ipv6ByteSliceToUint32Array :: "u8 list \<Rightarrow> u32 list"
  swap16 :: "u16 \<Rightarrow> u16"
  ParseAddrHdr :: "u8 list \<Rightarrow> error + (AddrHdr \<times> int)"
  RemoveMemlock :: "world \<Rightarrow> error option \<times> world"
  MkdirAll :: "string \<Rightarrow> world \<Rightarrow> world"
  loadBpfObjects :: "string \<Rightarrow> world \<Rightarrow> error option \<times> world"
  os_Remove :: "string \<Rightarrow> world \<Rightarrow> world"
  TproxyIngress_FD :: int
  TproxyEgress_FD :: int
  IsLevelEnabled :: "Level \<Rightarrow> bool"
  Parse :: "string \<Rightarrow> error + ('r list \<times> string)"
  RefineFunctionParamKeyOptimizer :: "'r list \<Rightarrow> error + 'r list"
  DatReaderOptimizer :: "'r list \<Rightarrow> error + 'r list"
  MergeAndSortRulesOptimizer :: "'r list \<Rightarrow> error + 'r list"
  DeduplicateParamsOptimizer :: "'r list \<Rightarrow> error + 'r list"
  rule_String :: "'r \<Rightarrow> string"
  NewFromLink :: "string \<Rightarrow> error + Dialer"
  FullconeDirectDialer :: Dialer
  NewRoutingMatcherBuilder :: "(string \<rightharpoonup> u8) \<Rightarrow> 'b"
  ApplyMatcherBuilder :: "'b \<Rightarrow> 'r list \<Rightarrow> string \<Rightarrow> error option \<times> 'b"
  Build :: "'b \<Rightarrow> world \<Rightarrow> (error option \<times> 'b) \<times> world"
  builder_SimulatedLpmTries :: "'b \<Rightarrow> Prefix list list"
  builder_SimulatedDomainSet :: "'b \<Rightarrow> DomainSet list"

text \<open>Modelled from the spec: \<open>routing.ApplyRulesOptimizers\<close>, of the package
  \<open>component/routing\<close>, whose code is missing. The operations are "applied in order, each taking and returning a RoutingPolicy", and an
  error of one of them is an error of the whole.\<close>

fun ApplyRulesOptimizers :: "'r list \<Rightarrow> ('r list \<Rightarrow> error + 'r list) list \<Rightarrow> error + 'r list" where
  "ApplyRulesOptimizers rules [] = Inr rules"
| "ApplyRulesOptimizers rules (opt # opts) =
     (case opt rules of Inl err \<Rightarrow> Inl err | Inr rules' \<Rightarrow> ApplyRulesOptimizers rules' opts)"

text \<open>Modelled from the spec: \<open>outbound.NewDialerGroup\<close>, of the package
  \<open>component/outbound\<close>, whose code is missing. An outbound group is a "name, ordered list of Dialers, a SelectionPolicy".\<close>

definition NewDialerGroup :: "string \<Rightarrow> Dialer list \<Rightarrow> DialerSelectionPolicy \<Rightarrow> DialerGroup" where
  "NewDialerGroup name dialers policy =
     \<lparr>Name = name, Dialers = dialers, selectionPolicy = policy\<rparr>"

section \<open>The kernel maps\<close>

text \<open>\<open>Map.Update(key, value, ebpf.UpdateAny)\<close> on \<open>ParamMap\<close> and on \<open>IfindexIpMap\<close>: a request
  that, unless it fails, stores the value under the key. \<open>Map.Lookup\<close> on \<open>ParamMap\<close> fails
  only when the key is absent.\<close>

definition ErrKeyNotExist :: error where
  "ErrKeyNotExist = New ''key does not exist''"

definition Update_ParamMap :: "u32 \<Rightarrow> u32 \<Rightarrow> world \<Rightarrow> error option \<times> world" where
  "Update_ParamMap k v w =
     attempt (ParamMap_Update k v) (\<lambda>w1. (None, w1\<lparr>ParamMap := (ParamMap w1)(k \<mapsto> v)\<rparr>)) w"

definition Lookup_ParamMap :: "u32 \<Rightarrow> world \<Rightarrow> error + u32" where
  "Lookup_ParamMap k w = (case ParamMap w k of None \<Rightarrow> Inl ErrKeyNotExist | Some v \<Rightarrow> Inr v)"

definition Update_IfindexIpMap :: "u32 \<Rightarrow> bpfIfIp \<Rightarrow> world \<Rightarrow> error option \<times> world" where
  "Update_IfindexIpMap k v w =
     attempt (IfindexIpMap_Update k v)
       (\<lambda>w1. (None, w1\<lparr>IfindexIpMap := (IfindexIpMap w1)(k \<mapsto> v)\<rparr>)) w"

text \<open>\<open>bpfObjects.Close\<close>, the teardown action of the loaded kernel objects.\<close>

definition bpf_Close :: deferFunc where
  "bpf_Close w = attempt bpfObjects_Close (\<lambda>w1. (None, w1\<lparr>bpfClosed := True\<rparr>)) w"

section \<open>\<open>NewControlPlane\<close>\<close>

text \<open>\<open>ebpf.ErrMapIncompatible\<close>, the sentinel the loader wraps when a pinned map does not fit.\<close>

definition ErrMapIncompatible :: error where
  "ErrMapIncompatible = New ''map spec is incompatible with existing map''"

definition pinPath :: "('r, 'b) env \<Rightarrow> string" where
  "pinPath env = filepath_Join (BpfPinRoot env) (AppName env)"

text \<open>
  The label \<open>retry_load\<close> and its \<open>goto\<close>: load the kernel objects; on a map-incompatibility
  error that names a pinned map, remove that map's pin, log a warning and load again. The
  result is \<open>None\<close> when the loop never leaves.
\<close>

partial_function (option) retry_load :: "('r, 'b) env \<Rightarrow> world \<Rightarrow> (error option \<times> world) option" where
  "retry_load env w =
     (case loadBpfObjects env (pinPath env) w of
        (None, w1) \<Rightarrow> Some (None, w1)
      | (Some err, w1) \<Rightarrow>
          if Is err ErrMapIncompatible then
            (let iPrefix = strings_Index (Error err) ''use pinned map '' in
             if iPrefix = - 1 then
               Some (Some (Errorf_w ''loading objects: bad format: '' err), w1)
             else
               (let mapName = hd (SplitN_colon_2
                      (drop (nat (iPrefix + int (length ''use pinned map ''))) (Error err)));
                    w2 = os_Remove env (filepath_Join (pinPath env) mapName) w1;
                    w3 = logf WarnLevel
                      ''New map format was incompatible with existing map %v, and the old one was removed.''
                      [S mapName] w2
                in retry_load env w3))
          else Some (Some (Errorf_w ''loading objects: '' err), w1))"

text \<open>Lines 53 to 79: the memory lock limit, the pin directory and the loading.\<close>

definition NewControlPlane_load :: "('r, 'b) env \<Rightarrow> world \<Rightarrow> (error option \<times> world) option" where
  "NewControlPlane_load env w0 =
     (case RemoveMemlock env w0 of
        (Some err, w) \<Rightarrow> Some (Some (Errorf_v ''rlimit.RemoveMemlock:'' err), w)
      | (None, w) \<Rightarrow> retry_load env (MkdirAll env (pinPath env) w))"

text \<open>Lines 152 to 159: the table from outbound names to ids.\<close>

fun assign_ids :: "nat \<Rightarrow> DialerGroup list \<Rightarrow> (string \<rightharpoonup> u8) \<Rightarrow> (string \<rightharpoonup> u8)" where
  "assign_ids i [] m = m"
| "assign_ids i (ob # obs) m = assign_ids (i + 1) obs (m(Name ob \<mapsto> of_nat i))"

definition generate_outboundName2Id :: "DialerGroup list \<Rightarrow> error + (string \<rightharpoonup> u8)" where
  "generate_outboundName2Id obs =
     (if length obs > 0xff then Inl (New ''too many outbounds'')
      else Inr (assign_ids 0 obs Map.empty))"

text \<open>Lines 127 to 133: the optimized rules go to the log when the trace level is enabled.\<close>

definition trace_routing :: "('r, 'b) env \<Rightarrow> 'r list \<Rightarrow> string \<Rightarrow> world \<Rightarrow> world" where
  "trace_routing env rules final w =
     (if IsLevelEnabled env TraceLevel
      then logf TraceLevel (''RoutingA:'' @ [CHR 0x0A] @ ''%vfinal: %v'' @ [CHR 0x0A])
             [S (concat (map (rule_String env) rules)), S final] w
      else w)"

text \<open>Lines 89 to 181, once the kernel objects are loaded: the parameters and the epoch, the
  routing rules and their optimizers, the outbounds, the routing matcher, the Control Plane.
  The lookup of the epoch leaves the variable at its zero value when it fails.\<close>

definition NewControlPlane_build ::
  "('r, 'b) env \<Rightarrow> string \<Rightarrow> world \<Rightarrow> (error + ControlPlane) \<times> world" where
  "NewControlPlane_build env routingA w0 =
     (case Update_ParamMap (DisableL4TxChecksumKey env) (DisableL4ChecksumPolicy_SetZero env) w0 of
        (Some err, w1) \<Rightarrow> (Inl err, w1)
      | (None, w1) \<Rightarrow>
     (case Update_ParamMap (DisableL4RxChecksumKey env) (DisableL4ChecksumPolicy_SetZero env) w1 of
        (Some err, w2) \<Rightarrow> (Inl err, w2)
      | (None, w2) \<Rightarrow>
     (let epoch0 = (case Lookup_ParamMap (EpochKey env) w2 of Inl err \<Rightarrow> 0 | Inr v \<Rightarrow> v);
          epoch1 = epoch0 + 1
      in
     (case Update_ParamMap (EpochKey env) epoch1 w2 of
        (Some err, w3) \<Rightarrow> (Inl err, w3)
      | (None, w3) \<Rightarrow>
     (case Parse env routingA of
        Inl err \<Rightarrow> (Inl (Errorf_w (''routingA error: '' @ [CHR 0x0A] @ '' '') err), w3)
      | Inr (rules0, final) \<Rightarrow>
     (case ApplyRulesOptimizers rules0
             [RefineFunctionParamKeyOptimizer env, DatReaderOptimizer env,
              MergeAndSortRulesOptimizer env, DeduplicateParamsOptimizer env] of
        Inl err \<Rightarrow> (Inl (Errorf_w (''ApplyRulesOptimizers error: '' @ [CHR 0x0A] @ '' '') err), w3)
      | Inr rules \<Rightarrow>
     (let w4 = trace_routing env rules final w3 in
     (case NewFromLink env ''socks5://localhost:1080'' of
        Inl err \<Rightarrow> (Inl err, w4)
      | Inr d \<Rightarrow>
     (let obs =
            [NewDialerGroup (OutboundDirect_String env) [FullconeDirectDialer env]
               \<lparr>Policy = DialerSelectionPolicy_Fixed, FixedIndex = 0\<rparr>,
             NewDialerGroup ''proxy'' [d]
               \<lparr>Policy = DialerSelectionPolicy_MinAverage10Latencies, FixedIndex = 0\<rparr>]
      in
     (case generate_outboundName2Id obs of
        Inl err \<Rightarrow> (Inl err, w4)
      | Inr name2id \<Rightarrow>
     (case ApplyMatcherBuilder env (NewRoutingMatcherBuilder env name2id) rules final of
        (Some err, builder1) \<Rightarrow> (Inl (Errorf_w ''ApplyMatcherBuilder: '' err), w4)
      | (None, builder1) \<Rightarrow>
     (case Build env builder1 w4 of
        ((Some err, builder2), w5) \<Rightarrow> (Inl (Errorf_w ''RoutingMatcherBuilder.Build: '' err), w5)
      | ((None, builder2), w5) \<Rightarrow>
          (Inr \<lparr>outbounds = obs, outboundName2Id = name2id,
                SimulatedLpmTries = builder_SimulatedLpmTries env builder2,
                SimulatedDomainSet = builder_SimulatedDomainSet env builder2,
                Final = final, dnsCache = Map.empty, epoch = epoch1,
                deferFuncs = [bpf_Close]\<rparr>, w5)))))))))))))"

text \<open>\<open>NewControlPlane\<close>: \<open>None\<close> when the loading never ends, otherwise the error or the
  Control Plane it returns, and the world it leaves.\<close>

definition NewControlPlane ::
  "('r, 'b) env \<Rightarrow> string \<Rightarrow> world \<Rightarrow> ((error + ControlPlane) \<times> world) option" where
  "NewControlPlane env routingA w0 =
     (case NewControlPlane_load env w0 of
        None \<Rightarrow> None
      | Some (Some err, w) \<Rightarrow> Some (Inl err, w)
      | Some (None, w) \<Rightarrow> Some (NewControlPlane_build env routingA w))"

text \<open>What one turn of the loading loop does, for the statement of its behaviour: a load
  that fails with a map-incompatibility error naming a pinned map is followed by the removal
  of that map's pin and a warning (\<open>retry_round\<close> gives the world in which the load is tried
  again); any other load ends the loop with \<open>load_result\<close>. \<open>rounds n\<close> is \<open>n\<close> such turns.\<close>

definition names_pinned_map :: "error \<Rightarrow> bool" where
  "names_pinned_map err =
     (Is err ErrMapIncompatible \<and> strings_Index (Error err) ''use pinned map '' \<noteq> - 1)"

definition pinned_map_name :: "error \<Rightarrow> string" where
  "pinned_map_name err =
     hd (SplitN_colon_2
          (drop (nat (strings_Index (Error err) ''use pinned map ''
                       + int (length ''use pinned map ''))) (Error err)))"

definition retry_round :: "('r, 'b) env \<Rightarrow> world \<Rightarrow> world option" where
  "retry_round env w =
     (case loadBpfObjects env (pinPath env) w of
        (None, w1) \<Rightarrow> None
      | (Some err, w1) \<Rightarrow>
          if names_pinned_map err then
            Some (logf WarnLevel
              ''New map format was incompatible with existing map %v, and the old one was removed.''
              [S (pinned_map_name err)]
              (os_Remove env (filepath_Join (pinPath env) (pinned_map_name err)) w1))
          else None)"

fun rounds :: "nat \<Rightarrow> ('r, 'b) env \<Rightarrow> world \<Rightarrow> world option" where
  "rounds 0 env w = Some w"
| "rounds (Suc n) env w =
     (case retry_round env w of None \<Rightarrow> None | Some w' \<Rightarrow> rounds n env w')"

definition load_result :: "('r, 'b) env \<Rightarrow> world \<Rightarrow> error option \<times> world" where
  "load_result env w =
     (case loadBpfObjects env (pinPath env) w of
        (None, w1) \<Rightarrow> (None, w1)
      | (Some err, w1) \<Rightarrow>
          if Is err ErrMapIncompatible
          then (Some (Errorf_w ''loading objects: bad format: '' err), w1)
          else (Some (Errorf_w ''loading objects: '' err), w1))"

text \<open>The routing-policy transforms in the words of the specification: Parse, then key
  refinement, then external-data resolution, then merge and sort, then deduplication, each
  applied to the result of the one before, the first error ending the sequence.\<close>

definition routing_pipeline :: "('r, 'b) env \<Rightarrow> string \<Rightarrow> error + ('r list \<times> string)" where
  "routing_pipeline env routingA =
     (case Parse env routingA of
        Inl e \<Rightarrow> Inl e
      | Inr (rules0, final) \<Rightarrow>
     (case RefineFunctionParamKeyOptimizer env rules0 of
        Inl e \<Rightarrow> Inl e
      | Inr rules1 \<Rightarrow>
     (case DatReaderOptimizer env rules1 of
        Inl e \<Rightarrow> Inl e
      | Inr rules2 \<Rightarrow>
     (case MergeAndSortRulesOptimizer env rules2 of
        Inl e \<Rightarrow> Inl e
      | Inr rules3 \<Rightarrow>
     (case DeduplicateParamsOptimizer env rules3 of
        Inl e \<Rightarrow> Inl e
      | Inr rules4 \<Rightarrow> Inr (rules4, final))))))"

text \<open>The epoch the parameter store holds: zero when it holds none.\<close>

definition stored_epoch :: "('r, 'b) env \<Rightarrow> world \<Rightarrow> u32" where
  "stored_epoch env w = (case ParamMap w (EpochKey env) of None \<Rightarrow> 0 | Some v \<Rightarrow> v)"

section \<open>\<open>BindLink\<close>\<close>

subsection \<open>\<open>net/netip\<close>\<close>

text \<open>The functions of \<open>netip.Addr\<close> that \<open>BindLink\<close> calls, as in the Go releases of the
  time of the source (the link-local tests look at an IPv6 address as it is, also when it
  maps an IPv4 address).\<close>

definition AddrFromSlice :: "u8 list \<Rightarrow> Addr option" where
  "AddrFromSlice bs =
     (if length bs = 4 then Some (Addr4 bs)
      else if length bs = 16 then Some (Addr6 bs)
      else None)"

fun Is4 :: "Addr \<Rightarrow> bool" where
  "Is4 (Addr4 b) = True"
| "Is4 (Addr6 b) = False"

fun Is6 :: "Addr \<Rightarrow> bool" where
  "Is6 (Addr4 b) = False"
| "Is6 (Addr6 b) = True"

fun As16 :: "Addr \<Rightarrow> u8 list" where
  "As16 (Addr4 b) = [0, 0, 0, 0, 0, 0, 0, 0, 0, 0, 0xff, 0xff] @ b"
| "As16 (Addr6 b) = b"

definition v6u16_0 :: "u8 list \<Rightarrow> u16" where
  "v6u16_0 b = push_bit 8 (ucast (b ! 0)) OR ucast (b ! 1)"

fun IsLinkLocalUnicast :: "Addr \<Rightarrow> bool" where
  "IsLinkLocalUnicast (Addr4 b) = (b ! 0 = 169 \<and> b ! 1 = 254)"
| "IsLinkLocalUnicast (Addr6 b) = (v6u16_0 b AND 0xffc0 = 0xfe80)"

fun IsLinkLocalMulticast :: "Addr \<Rightarrow> bool" where
  "IsLinkLocalMulticast (Addr4 b) = (b ! 0 = 224 \<and> b ! 1 = 0 \<and> b ! 2 = 0)"
| "IsLinkLocalMulticast (Addr6 b) = (v6u16_0 b AND 0xff0f = 0xff02)"

subsection \<open>\<open>netlink\<close>\<close>

text \<open>
  The kernel side of the netlink calls: an interface is found by its name; a qdisc or a
  filter is added unless it is there already and deleted if it is there. That the kernel
  drops the filters of a qdisc together with the qdisc is not modelled.
\<close>

definition ErrLinkNotFound :: error where
  "ErrLinkNotFound = New ''Link not found''"

definition EEXIST :: error where
  "EEXIST = New ''file exists''"

definition ENOENT :: error where
  "ENOENT = New ''no such file or directory''"

definition os_IsExist :: "error \<Rightarrow> bool" where
  "os_IsExist err = (err = EEXIST)"

definition netlink_LinkByName :: "string \<Rightarrow> world \<Rightarrow> (error + Link) \<times> world" where
  "netlink_LinkByName ifname w =
     (let w1 = w\<lparr>trace := trace w @ [LinkByName ifname]\<rparr>
      in case fault w (trace w) (LinkByName ifname) of
           Some e \<Rightarrow> (Inl e, w1)
         | None \<Rightarrow>
             (case links w ifname of
                None \<Rightarrow> (Inl ErrLinkNotFound, w1)
              | Some link \<Rightarrow> (Inr link, w1)))"

definition netlink_AddrList :: "Link \<Rightarrow> world \<Rightarrow> (error + u8 list list) \<times> world" where
  "netlink_AddrList link w =
     (let w1 = w\<lparr>trace := trace w @ [AddrList (Index link)]\<rparr>
      in case fault w (trace w) (AddrList (Index link)) of
           Some e \<Rightarrow> (Inl e, w1)
         | None \<Rightarrow> (Inr (Addrs link), w1))"

definition netlink_QdiscAdd :: "GenericQdisc \<Rightarrow> world \<Rightarrow> error option \<times> world" where
  "netlink_QdiscAdd q w =
     attempt (QdiscAdd q)
       (\<lambda>w1. if q \<in> set (qdiscs w1) then (Some EEXIST, w1)
              else (None, w1\<lparr>qdiscs := qdiscs w1 @ [q]\<rparr>)) w"

definition netlink_QdiscDel :: "GenericQdisc \<Rightarrow> world \<Rightarrow> error option \<times> world" where
  "netlink_QdiscDel q w =
     attempt (QdiscDel q)
       (\<lambda>w1. if q \<in> set (qdiscs w1) then (None, w1\<lparr>qdiscs := removeAll q (qdiscs w1)\<rparr>)
              else (Some ENOENT, w1)) w"

definition netlink_FilterAdd :: "BpfFilter \<Rightarrow> world \<Rightarrow> error option \<times> world" where
  "netlink_FilterAdd f w =
     attempt (FilterAdd f)
       (\<lambda>w1. if f \<in> set (filters w1) then (Some EEXIST, w1)
              else (None, w1\<lparr>filters := filters w1 @ [f]\<rparr>)) w"

definition netlink_FilterDel :: "BpfFilter \<Rightarrow> world \<Rightarrow> error option \<times> world" where
  "netlink_FilterDel f w =
     attempt (FilterDel f)
       (\<lambda>w1. if f \<in> set (filters w1) then (None, w1\<lparr>filters := removeAll f (filters w1)\<rparr>)
              else (Some ENOENT, w1)) w"

definition MakeHandle :: "u16 \<Rightarrow> u16 \<Rightarrow> u32" where
  "MakeHandle major minor = push_bit 16 (ucast major) OR ucast minor"

definition HANDLE_CLSACT :: u32 where
  "HANDLE_CLSACT = 0xFFFFFFF1"

definition HANDLE_MIN_INGRESS :: u32 where
  "HANDLE_MIN_INGRESS = 0xFFFFFFF2"

definition HANDLE_MIN_EGRESS :: u32 where
  "HANDLE_MIN_EGRESS = 0xFFFFFFF3"

definition ETH_P_ALL :: u16 where
  "ETH_P_ALL = 0x0003"

subsection \<open>The address record of the interface\<close>

text \<open>Lines 199 to 223: the loop over the addresses of the interface, from the record
  \<open>linkIp\<close> filled so far. A \<open>continue\<close> goes on with the same record, the \<open>break\<close> ends the
  loop.\<close>

fun linkIp_loop :: "('r, 'b) env \<Rightarrow> u8 list list \<Rightarrow> bpfIfIp \<Rightarrow> bpfIfIp" where
  "linkIp_loop env [] linkIp = linkIp"
| "linkIp_loop env (ipnet_IP # rest) linkIp =
     (case AddrFromSlice ipnet_IP of
        None \<Rightarrow> linkIp_loop env rest linkIp
      | Some ip \<Rightarrow>
          if IsLinkLocalUnicast ip \<or> IsLinkLocalMulticast ip then linkIp_loop env rest linkIp
          else if (Is6 ip \<and> HasIp6 linkIp) \<or> (Is4 ip \<and> HasIp4 linkIp) then
            linkIp_loop env rest linkIp
          else
            (let ip6format = As16 ip;
                 linkIp1 =
                   (if Is4 ip
                    then linkIp\<lparr>HasIp4 := True,
                           Ip4 := Ipv6ByteSliceToUint32Array env ip6format\<rparr>
                    else linkIp\<lparr>HasIp6 := True,
                           Ip6 := Ipv6ByteSliceToUint32Array env ip6format\<rparr>)
             in if HasIp4 linkIp1 \<and> HasIp6 linkIp1 then linkIp1
                else linkIp_loop env rest linkIp1))"

subsection \<open>The qdisc, the filters and the teardown actions\<close>

text \<open>The struct literals of lines 229, 251 and 269.\<close>

definition clsact_qdisc :: "Link \<Rightarrow> GenericQdisc" where
  "clsact_qdisc link =
     \<lparr>qLinkIndex = Index link, qHandle = MakeHandle 0xffff 0, qParent = HANDLE_CLSACT,
      QdiscType = ''clsact''\<rparr>"

definition ingress_filter :: "('r, 'b) env \<Rightarrow> Link \<Rightarrow> BpfFilter" where
  "ingress_filter env link =
     \<lparr>fLinkIndex = Index link, fParent = HANDLE_MIN_INGRESS, fHandle = MakeHandle 0 1,
      Protocol = ETH_P_ALL, Priority = 0, Fd = TproxyIngress_FD env,
      fName = AppName env @ ''_ingress'', DirectAction = True\<rparr>"

definition egress_filter :: "('r, 'b) env \<Rightarrow> Link \<Rightarrow> BpfFilter" where
  "egress_filter env link =
     \<lparr>fLinkIndex = Index link, fParent = HANDLE_MIN_EGRESS, fHandle = MakeHandle 0 1,
      Protocol = ETH_P_ALL, Priority = 0, Fd = TproxyEgress_FD env,
      fName = AppName env @ ''_egress'', DirectAction = True\<rparr>"

text \<open>Lines 237 to 246: add the qdisc; when it exists, delete it and add it again.\<close>

definition add_qdisc :: "GenericQdisc \<Rightarrow> world \<Rightarrow> error option \<times> world" where
  "add_qdisc qdisc w =
     (case netlink_QdiscAdd qdisc w of
        (None, w1) \<Rightarrow> (None, w1)
      | (Some err, w1) \<Rightarrow>
          if os_IsExist err then
            (case netlink_QdiscDel qdisc w1 of (ignored, w2) \<Rightarrow> netlink_QdiscAdd qdisc w2)
          else (Some err, w1))"

text \<open>\<open>BindLink\<close> returns its error, the Control Plane with the teardown actions registered so
  far, and the world.\<close>

definition BindLink ::
  "('r, 'b) env \<Rightarrow> ControlPlane \<Rightarrow> string \<Rightarrow> world \<Rightarrow> (error option \<times> ControlPlane) \<times> world" where
  "BindLink env c ifname w0 =
     (case netlink_LinkByName ifname w0 of
        (Inl err, w1) \<Rightarrow> ((Some err, c), w1)
      | (Inr link, w1) \<Rightarrow>
     (case netlink_AddrList link w1 of
        (Inl err, w2) \<Rightarrow> ((Some err, c), w2)
      | (Inr ipnets, w2) \<Rightarrow>
     if length ipnets = 0 then
       ((Some (New (''interface '' @ ifname @ '' has no ip'')), c), w2)
     else
     (case Update_IfindexIpMap (word_of_int (Index link))
             (linkIp_loop env ipnets zero_bpfIfIp) w2 of
        (Some err, w3) \<Rightarrow> ((Some (Errorf_w ''update IfindexIpsMap: '' err), c), w3)
      | (None, w3) \<Rightarrow>
     (case add_qdisc (clsact_qdisc link) w3 of
        (Some err, w4) \<Rightarrow> ((Some (Errorf_w ''cannot add clsact qdisc: '' err), c), w4)
      | (None, w4) \<Rightarrow>
     (let c1 = c\<lparr>deferFuncs := deferFuncs c @ [netlink_QdiscDel (clsact_qdisc link)]\<rparr>;
          filter = ingress_filter env link
      in
     (case netlink_FilterAdd filter w4 of
        (Some err, w5) \<Rightarrow>
          ((Some (Errorf_w ''cannot attach ebpf object to filter ingress: '' err), c1), w5)
      | (None, w5) \<Rightarrow>
     (let c2 = c1\<lparr>deferFuncs := deferFuncs c1 @ [netlink_FilterDel filter]\<rparr>;
          filterEgress = egress_filter env link
      in
     (case netlink_FilterAdd filterEgress w5 of
        (Some err, w6) \<Rightarrow>
          ((Some (Errorf_w ''cannot attach ebpf object to filter ingress: '' err), c2), w6)
      | (None, w6) \<Rightarrow>
          ((None, c2\<lparr>deferFuncs := deferFuncs c2 @ [netlink_FilterDel filter]\<rparr>), w6)))))))))"

text \<open>The address record in the words of the specification: among the addresses that are
  well-formed and not link-local, the first IPv4 address and the first IPv6 address, each
  in its 16-byte form and with its presence flag; zeros and no flag for a family without
  such an address.\<close>

fun eligible :: "u8 list list \<Rightarrow> Addr list" where
  "eligible [] = []"
| "eligible (bs # rest) =
     (case AddrFromSlice bs of
        None \<Rightarrow> eligible rest
      | Some ip \<Rightarrow>
          if IsLinkLocalUnicast ip \<or> IsLinkLocalMulticast ip then eligible rest
          else ip # eligible rest)"

definition address_record :: "('r, 'b) env \<Rightarrow> u8 list list \<Rightarrow> bpfIfIp" where
  "address_record env ipnets =
     \<lparr>Ip4 = (case find Is4 (eligible ipnets) of
               None \<Rightarrow> [0, 0, 0, 0]
             | Some ip \<Rightarrow> Ipv6ByteSliceToUint32Array env (As16 ip)),
      Ip6 = (case find Is6 (eligible ipnets) of
               None \<Rightarrow> [0, 0, 0, 0]
             | Some ip \<Rightarrow> Ipv6ByteSliceToUint32Array env (As16 ip)),
      HasIp4 = (find Is4 (eligible ipnets) \<noteq> None),
      HasIp6 = (find Is6 (eligible ipnets) \<noteq> None)\<rparr>"

section \<open>\<open>ListenAndServe\<close>\<close>

subsection \<open>Listening\<close>

text \<open>\<open>strconv.Itoa\<close>.\<close>

definition digit :: "nat \<Rightarrow> char" where
  "digit d = char_of (48 + d)"

function Itoa_nat :: "nat \<Rightarrow> string" where
  "Itoa_nat n = (if n < 10 then [digit n] else Itoa_nat (n div 10) @ [digit (n mod 10)])"
  by pat_completeness auto
termination
  by (relation "measure id") auto

declare Itoa_nat.simps [simp del]

definition Itoa :: "int \<Rightarrow> string" where
  "Itoa i = (if i < 0 then CHR ''-'' # Itoa_nat (nat (- i)) else Itoa_nat (nat i))"

text \<open>\<open>net.Listen\<close>, \<open>net.ListenUDP\<close> and the deferred \<open>Close\<close> of the two listeners, whose
  result is dropped. The listeners of one call are told apart by their port.\<close>

definition net_Listen :: "string \<Rightarrow> string \<Rightarrow> world \<Rightarrow> error option \<times> world" where
  "net_Listen network address w = attempt (Listen network address) (\<lambda>w1. (None, w1)) w"

definition net_ListenUDP :: "string \<Rightarrow> u16 \<Rightarrow> world \<Rightarrow> error option \<times> world" where
  "net_ListenUDP network port w = attempt (ListenUDP network port) (\<lambda>w1. (None, w1)) w"

definition close_listener :: "u16 \<Rightarrow> world \<Rightarrow> world" where
  "close_listener port w = snd (attempt (Listener_Close port) (\<lambda>w1. (None, w1)) w)"

definition close_lConn :: "u16 \<Rightarrow> world \<Rightarrow> world" where
  "close_lConn port w = snd (attempt (UDPConn_Close port) (\<lambda>w1. (None, w1)) w)"

text \<open>\<open>context.WithCancel\<close> takes the next context of the world; \<open>cancel_ctx k\<close> is the
  teardown action of line 312, which cancels context \<open>k\<close> and returns nil.\<close>

definition cancel_ctx :: "nat \<Rightarrow> deferFunc" where
  "cancel_ctx k w = (None, w\<lparr>ctxDone := (ctxDone w)(k := True)\<rparr>)"

subsection \<open>The two loops\<close>

text \<open>How one pass through the body of a \<open>for\<close> loop ends: with the next pass, with the
  \<open>break\<close>, or with a run-time panic.\<close>

datatype iter = Continue | Break | Panic

text \<open>\<open>go f(...)\<close> for a handler: one more goroutine.\<close>

definition go :: "task \<Rightarrow> world \<Rightarrow> world" where
  "go t w = w\<lparr>goroutines := goroutines w @ [t]\<rparr>"

text \<open>Lines 319 to 330: one pass of the stream loop, given what \<open>listener.Accept\<close> returned.\<close>

definition accept_pass :: "error + Conn \<Rightarrow> world \<Rightarrow> iter \<times> world" where
  "accept_pass r w =
     (case r of
        Inl err \<Rightarrow>
          (Break,
           if \<not> Contains (Error err) ''use of closed network connection''
           then logf ErrorLevel ''Error when accept: %v'' [E err] w
           else w)
      | Inr lconn \<Rightarrow> (Continue, go (HandleConn lconn) w))"

text \<open>What \<open>lConn.ReadFromUDPAddrPort(buf[:])\<close> returns: the bytes \<open>buf[:n]\<close> and the peer,
  or an error (with the peer, if it has one).\<close>

datatype ReadResult = ReadOk "u8 list" AddrPort | ReadErr "AddrPort option" error

definition AddrPort_String :: "AddrPort option \<Rightarrow> logarg" where
  "AddrPort_String ap = (case ap of None \<Rightarrow> S ''invalid AddrPort'' | Some p \<Rightarrow> P p)"

text \<open>Lines 336 to 356: one pass of the datagram loop. \<open>pool.Get(n - dataOffset)\<close> and
  \<open>buf[dataOffset:n]\<close> panic when the offset is not within the \<open>n\<close> bytes read; otherwise the
  new buffer holds the bytes from the offset on.\<close>

definition read_pass :: "('r, 'b) env \<Rightarrow> ReadResult \<Rightarrow> world \<Rightarrow> iter \<times> world" where
  "read_pass env r w =
     (case r of
        ReadErr lAddrPort err \<Rightarrow>
          (Break,
           if \<not> Contains (Error err) ''use of closed network connection''
           then logf ErrorLevel ''ReadFromUDPAddrPort: %v, %v'' [AddrPort_String lAddrPort, E err] w
           else w)
      | ReadOk data lAddrPort \<Rightarrow>
          (case ParseAddrHdr env data of
             Inl err \<Rightarrow> (Continue, logf WarnLevel ''No AddrPort presented'' [] w)
           | Inr (addrHdr, dataOffset) \<Rightarrow>
               if dataOffset < 0 \<or> int (length data) < dataOffset then (Panic, w)
               else (Continue, go (HandlePkt (drop (nat dataOffset) data) lAddrPort addrHdr) w)))"

text \<open>
  Each loop, run on its own against the results its blocking call returns one after the
  other: it has left the loop (\<open>Exited\<close>), it is blocked in the call for the next result
  (\<open>Waiting\<close>), or it has panicked (\<open>Crashed\<close>).
\<close>

datatype loop_end = Exited | Waiting | Crashed

fun accept_loop :: "(error + Conn) list \<Rightarrow> world \<Rightarrow> loop_end \<times> world" where
  "accept_loop [] w = (Waiting, w)"
| "accept_loop (r # rs) w =
     (case accept_pass r w of
        (Continue, w1) \<Rightarrow> accept_loop rs w1
      | (Break, w1) \<Rightarrow> (Exited, w1)
      | (Panic, w1) \<Rightarrow> (Crashed, w1))"

fun read_loop :: "('r, 'b) env \<Rightarrow> ReadResult list \<Rightarrow> world \<Rightarrow> loop_end \<times> world" where
  "read_loop env [] w = (Waiting, w)"
| "read_loop env (r # rs) w =
     (case read_pass env r w of
        (Continue, w1) \<Rightarrow> read_loop env rs w1
      | (Break, w1) \<Rightarrow> (Exited, w1)
      | (Panic, w1) \<Rightarrow> (Crashed, w1))"

text \<open>The datagram loop in the words of the specification, for datagrams read without error
  (each with its peer): the datagrams whose header parses are handed to the packet handler,
  in order, each with the bytes after its header; for each of the others there is one
  warning.\<close>

fun handed_over :: "('r, 'b) env \<Rightarrow> (u8 list \<times> AddrPort) list \<Rightarrow> task list" where
  "handed_over env [] = []"
| "handed_over env ((data, peer) # rest) =
     (case ParseAddrHdr env data of
        Inl err \<Rightarrow> handed_over env rest
      | Inr (hdr, offset) \<Rightarrow> HandlePkt (drop (nat offset) data) peer hdr # handed_over env rest)"

fun dropped :: "('r, 'b) env \<Rightarrow> (u8 list \<times> AddrPort) list \<Rightarrow> LogEntry list" where
  "dropped env [] = []"
| "dropped env ((data, peer) # rest) =
     (case ParseAddrHdr env data of
        Inl err \<Rightarrow> (WarnLevel, ''No AddrPort presented'', []) # dropped env rest
      | Inr found \<Rightarrow> dropped env rest)"

subsection \<open>The goroutines of \<open>ListenAndServe\<close>\<close>

text \<open>
  Lines 291 to 315 run in the caller's goroutine: they return an error, or leave a stream
  listener and a datagram listener on the port, the port in the parameter store, a new
  context and its \<open>cancel\<close> registered as a teardown action. From then on three goroutines
  run: the two loops and the caller, blocked on \<open>ctx.Done()\<close>. The state of such a call:
  the Control Plane and the world, the context and the port, whether each loop is still
  running, whether each listener is still open, whether a panic has stopped the process, and
  what \<open>ListenAndServe\<close> has returned, if it has.
\<close>

record serving =
  plane :: ControlPlane
  sworld :: world
  ctx :: nat
  lport :: u16
  tcpLoop :: bool
  udpLoop :: bool
  listenerOpen :: bool
  lConnOpen :: bool
  crashed :: bool
  returned :: "error option option"

definition ListenAndServe_start ::
  "('r, 'b) env \<Rightarrow> ControlPlane \<Rightarrow> u16 \<Rightarrow> world \<Rightarrow> (error \<times> world) + serving" where
  "ListenAndServe_start env c port w0 =
     (case net_Listen ''tcp'' (''0.0.0.0:'' @ Itoa (uint port)) w0 of
        (Some err, w1) \<Rightarrow> Inl (Errorf_w ''listenTCP: '' err, w1)
      | (None, w1) \<Rightarrow>
     (case net_ListenUDP ''udp'' port w1 of
        (Some err, w2) \<Rightarrow> Inl (Errorf_w ''listenUDP: '' err, close_listener port w2)
      | (None, w2) \<Rightarrow>
     (case Update_ParamMap (BigEndianTproxyPortKey env) (ucast (swap16 env port)) w2 of
        (Some err, w3) \<Rightarrow> Inl (err, close_listener port (close_lConn port w3))
      | (None, w3) \<Rightarrow>
          (let k = nextCtx w3;
               w4 = w3\<lparr>nextCtx := k + 1, ctxDone := (ctxDone w3)(k := False)\<rparr>
           in Inr \<lparr>plane = c\<lparr>deferFuncs := deferFuncs c @ [cancel_ctx k]\<rparr>,
                   sworld = w4, ctx = k, lport = port, tcpLoop = True, udpLoop = True,
                   listenerOpen = True, lConnOpen = True, crashed = False,
                   returned = None\<rparr>))))"

text \<open>The body of a handler goroutine (lines 327 to 329 and 352 to 355), once the handler
  has returned: a warning if it returned an error.\<close>

definition handler_returned :: "task \<Rightarrow> error option \<Rightarrow> world \<Rightarrow> world" where
  "handler_returned t e w =
     (let w1 = w\<lparr>goroutines := remove1 t (goroutines w)\<rparr>
      in case e of
           None \<Rightarrow> w1
         | Some err \<Rightarrow>
             logf WarnLevel []
               [S (case t of HandleConn lconn \<Rightarrow> ''handleConn:''
                           | HandlePkt data peer hdr \<Rightarrow> ''handlePkt:''), E err] w1)"

text \<open>The error of \<open>Accept\<close> and of \<open>ReadFromUDPAddrPort\<close> on a closed listener.\<close>

definition ErrNetClosed :: error where
  "ErrNetClosed = New ''use of closed network connection''"

definition closed_error :: "string \<Rightarrow> error" where
  "closed_error op = Wrap (op @ '': use of closed network connection'') ErrNetClosed"

text \<open>
  What can happen next, in any order the scheduler and the network choose:
  \<open>Accept\<close> returns in the stream loop, \<open>ReadFromUDPAddrPort\<close> returns in the datagram loop
  (on a closed listener each returns the closed-listener error, whatever the network would
  have delivered), a handler returns, the registered \<open>cancel\<close> action is invoked (by
  \<open>Close\<close>), or the caller's receive from \<open>ctx.Done()\<close> completes, which needs the context
  cancelled: then \<open>ListenAndServe\<close> returns nil and its deferred calls close both listeners.
  A loop that ends runs its deferred \<open>cancel\<close>. After a panic nothing happens any more.
\<close>

datatype event =
    Accepted "error + Conn"
  | ReadFrom ReadResult
  | HandlerReturned task "error option"
  | CancelCalled
  | ContextDone

definition serve_step :: "('r, 'b) env \<Rightarrow> event \<Rightarrow> serving \<Rightarrow> serving" where
  "serve_step env ev s =
     (if crashed s then s
      else case ev of
        Accepted r \<Rightarrow>
          if \<not> tcpLoop s then s
          else
            (case accept_pass (if listenerOpen s then r else Inl (closed_error ''accept tcp''))
                    (sworld s) of
               (Continue, w1) \<Rightarrow> s\<lparr>sworld := w1\<rparr>
             | (Break, w1) \<Rightarrow> s\<lparr>sworld := snd (cancel_ctx (ctx s) w1), tcpLoop := False\<rparr>
             | (Panic, w1) \<Rightarrow>
                 s\<lparr>sworld := snd (cancel_ctx (ctx s) w1), tcpLoop := False, crashed := True\<rparr>)
      | ReadFrom r \<Rightarrow>
          if \<not> udpLoop s then s
          else
            (case read_pass env
                    (if lConnOpen s then r else ReadErr None (closed_error ''read udp''))
                    (sworld s) of
               (Continue, w1) \<Rightarrow> s\<lparr>sworld := w1\<rparr>
             | (Break, w1) \<Rightarrow> s\<lparr>sworld := snd (cancel_ctx (ctx s) w1), udpLoop := False\<rparr>
             | (Panic, w1) \<Rightarrow>
                 s\<lparr>sworld := snd (cancel_ctx (ctx s) w1), udpLoop := False, crashed := True\<rparr>)
      | HandlerReturned t e \<Rightarrow>
          if t \<in> set (goroutines (sworld s))
          then s\<lparr>sworld := handler_returned t e (sworld s)\<rparr>
          else s
      | CancelCalled \<Rightarrow> s\<lparr>sworld := snd (cancel_ctx (ctx s) (sworld s))\<rparr>
      | ContextDone \<Rightarrow>
          if ctxDone (sworld s) (ctx s) \<and> returned s = None
          then s\<lparr>returned := Some None, lConnOpen := False, listenerOpen := False,
                 sworld := close_listener (lport s) (close_lConn (lport s) (sworld s))\<rparr>
          else s)"

fun serve :: "('r, 'b) env \<Rightarrow> event list \<Rightarrow> serving \<Rightarrow> serving" where
  "serve env [] s = s"
| "serve env (ev # evs) s = serve env evs (serve_step env ev s)"

text \<open>What holds of a call of \<open>ListenAndServe\<close> with context \<open>k\<close> at every moment.\<close>

definition serving_inv :: "nat \<Rightarrow> serving \<Rightarrow> bool" where
  "serving_inv k s =
     (ctx s = k
      \<and> (returned s = None \<or> returned s = Some None)
      \<and> (returned s = Some None \<longrightarrow>
           ctxDone (sworld s) k \<and> \<not> listenerOpen s \<and> \<not> lConnOpen s)
      \<and> (\<not> tcpLoop s \<longrightarrow> ctxDone (sworld s) k)
      \<and> (\<not> udpLoop s \<longrightarrow> ctxDone (sworld s) k))"

section \<open>Example values\<close>

text \<open>A quiet world: nothing logged, no goroutine started, nothing requested, no failure
  injected, empty kernel maps, no interface. A Control Plane with nothing registered.\<close>

definition world0 :: world where
  "world0 = \<lparr>logs = [], goroutines = [], trace = [], fault = (\<lambda>h r. None), ParamMap = Map.empty,
     IfindexIpMap = Map.empty, bpfClosed = False, links = Map.empty, qdiscs = [], filters = [],
     ctxDone = (\<lambda>k. False), nextCtx = 0\<rparr>"

definition plane0 :: ControlPlane where
  "plane0 = \<lparr>outbounds = [], outboundName2Id = Map.empty, SimulatedLpmTries = [],
     SimulatedDomainSet = [], Final = ''direct'', dnsCache = Map.empty, epoch = 0,
     deferFuncs = []\<rparr>"

text \<open>A teardown action that leaves its name in the log and returns the given result.\<close>

definition release :: "string \<Rightarrow> error option \<Rightarrow> deferFunc" where
  "release name r w = (r, logf TraceLevel name [] w)"

text \<open>An environment in which everything succeeds. A rule is a string and each optimizer
  leaves its mark on every rule; the builder keeps what it was given; the header of a datagram
  is a family byte (4 or 6), the address and a big-endian port.\<close>

fun le_words :: "u8 list \<Rightarrow> u32 list" where
  "le_words (a # b # c # d # rest) =
     (ucast a OR push_bit 8 (ucast b) OR push_bit 16 (ucast c) OR push_bit 24 (ucast d))
       # le_words rest"
| "le_words rest = []"

definition parse0 :: "u8 list \<Rightarrow> error + (AddrHdr \<times> int)" where
  "parse0 data =
     (case data of
        [] \<Rightarrow> Inl (New ''empty datagram'')
      | fam # rest \<Rightarrow>
          if fam = 4 \<and> 6 \<le> length rest then
            Inr (\<lparr>Dest = Addr4 (take 4 rest),
                  Port = push_bit 8 (ucast (rest ! 4)) OR ucast (rest ! 5)\<rparr>, 7)
          else if fam = 6 \<and> 18 \<le> length rest then
            Inr (\<lparr>Dest = Addr6 (take 16 rest),
                  Port = push_bit 8 (ucast (rest ! 16)) OR ucast (rest ! 17)\<rparr>, 19)
          else Inl (New ''bad address header''))"

definition env0 :: "(string, string list) env" where
  "env0 = \<lparr>BpfPinRoot = ''/sys/fs/bpf'', AppName = ''foo'',
     DisableL4TxChecksumKey = 2, DisableL4RxChecksumKey = 3,
     DisableL4ChecksumPolicy_SetZero = 2, EpochKey = 4, BigEndianTproxyPortKey = 1,
     OutboundDirect_String = ''direct'',
     Ipv6ByteSliceToUint32Array = le_words,
     swap16 = (\<lambda>x. push_bit 8 x OR drop_bit 8 x),
     ParseAddrHdr = parse0,
     RemoveMemlock = (\<lambda>w. (None, w)),
     MkdirAll = (\<lambda>path w. w),
     loadBpfObjects = (\<lambda>path w. (None, w)),
     os_Remove = (\<lambda>path w. w),
     TproxyIngress_FD = 7, TproxyEgress_FD = 8,
     IsLevelEnabled = (\<lambda>lvl. lvl \<noteq> TraceLevel),
     Parse = (\<lambda>text. if text = [] then Inl (New ''no rule'') else Inr ([text], ''direct'')),
     RefineFunctionParamKeyOptimizer = (\<lambda>rules. Inr (map (\<lambda>r. r @ ''1'') rules)),
     DatReaderOptimizer = (\<lambda>rules. Inr (map (\<lambda>r. r @ ''2'') rules)),
     MergeAndSortRulesOptimizer = (\<lambda>rules. Inr (map (\<lambda>r. r @ ''3'') rules)),
     DeduplicateParamsOptimizer = (\<lambda>rules. Inr (map (\<lambda>r. r @ ''4'') rules)),
     rule_String = (\<lambda>r. r),
     NewFromLink = (\<lambda>link. Inr (Dialer link)),
     FullconeDirectDialer = Dialer ''direct'',
     NewRoutingMatcherBuilder = (\<lambda>name2id. []),
     ApplyMatcherBuilder = (\<lambda>builder rules final. (None, builder @ rules @ [final])),
     Build = (\<lambda>builder w. ((None, builder), w)),
     builder_SimulatedLpmTries = (\<lambda>builder. []),
     builder_SimulatedDomainSet = (\<lambda>builder. [])\<rparr>"

text \<open>The error of a load that finds the pinned map \<open>param_map\<close> incompatible.\<close>

definition stale_map_error :: error where
  "stale_map_error =
     Wrap ''map param_map: use pinned map param_map: map spec is incompatible with existing map''
       ErrMapIncompatible"

text \<open>An environment in which the pinned map stays incompatible whatever is removed (the
  result of \<open>os.Remove\<close> is discarded by the source), and one in which two loads fail that way
  before the third succeeds (each turn of the loop leaves one warning in the log).\<close>

definition stuck_env :: "(string, string list) env" where
  "stuck_env = env0\<lparr>loadBpfObjects := (\<lambda>path w. (Some stale_map_error, w))\<rparr>"

definition twice_env :: "(string, string list) env" where
  "twice_env = env0\<lparr>loadBpfObjects :=
     (\<lambda>path w. if length (logs w) < 2 then (Some stale_map_error, w) else (None, w))\<rparr>"

text \<open>The quiet world after two turns of the loading loop.\<close>

definition warned_twice :: world where
  "warned_twice = world0\<lparr>logs :=
     [(WarnLevel,
       ''New map format was incompatible with existing map %v, and the old one was removed.'',
       [S ''param_map'']),
      (WarnLevel,
       ''New map format was incompatible with existing map %v, and the old one was removed.'',
       [S ''param_map''])]\<rparr>"

text \<open>The two outbounds of the source, and \<open>n\<close> outbounds with distinct names.\<close>

definition two_outbounds :: "DialerGroup list" where
  "two_outbounds =
     [NewDialerGroup ''direct'' [Dialer ''direct'']
        \<lparr>Policy = DialerSelectionPolicy_Fixed, FixedIndex = 0\<rparr>,
      NewDialerGroup ''proxy'' [Dialer ''socks5://localhost:1080'']
        \<lparr>Policy = DialerSelectionPolicy_MinAverage10Latencies, FixedIndex = 0\<rparr>]"

definition many_outbounds :: "nat \<Rightarrow> DialerGroup list" where
  "many_outbounds n =
     map (\<lambda>i. NewDialerGroup (replicate i (CHR ''x'')) []
                 \<lparr>Policy = DialerSelectionPolicy_Fixed, FixedIndex = 0\<rparr>) [0..<n]"

text \<open>An interface \<open>eth0\<close> with index 2 and five addresses: 169.254.0.1 (link-local),
  192.168.1.2, 10.0.0.1, fe80::1 (link-local) and 2001:db8::1; the quiet world with this
  interface.\<close>

definition eth0 :: Link where
  "eth0 = \<lparr>Index = 2,
     Addrs = [[169, 254, 0, 1], [192, 168, 1, 2], [10, 0, 0, 1],
              [0xfe, 0x80, 0, 0, 0, 0, 0, 0, 0, 0, 0, 0, 0, 0, 0, 1],
              [0x20, 0x01, 0x0d, 0xb8, 0, 0, 0, 0, 0, 0, 0, 0, 0, 0, 0, 1]]\<rparr>"

definition world_eth0 :: world where
  "world_eth0 = world0\<lparr>links := [''eth0'' \<mapsto> eth0]\<rparr>"

text \<open>The world a successful \<open>BindLink\<close> on \<open>eth0\<close> leaves.\<close>

definition bound_eth0 :: world where
  "bound_eth0 = world_eth0\<lparr>
     trace := [LinkByName ''eth0'', AddrList 2,
       IfindexIpMap_Update 2 (address_record env0 (Addrs eth0)),
       QdiscAdd (clsact_qdisc eth0), FilterAdd (ingress_filter env0 eth0),
       FilterAdd (egress_filter env0 eth0)],
     IfindexIpMap := [2 \<mapsto> address_record env0 (Addrs eth0)],
     qdiscs := [clsact_qdisc eth0],
     filters := [ingress_filter env0 eth0, egress_filter env0 eth0]\<rparr>"

text \<open>A peer, and the state in which \<open>ListenAndServe\<close> on port 12345 starts serving in the
  quiet world.\<close>

definition peer0 :: AddrPort where
  "peer0 = (Addr4 [10, 0, 0, 9], 4000)"

definition serving0 :: serving where
  "serving0 =
     \<lparr>plane = plane0\<lparr>deferFuncs := [cancel_ctx 0]\<rparr>,
      sworld = world0\<lparr>
        trace := [Listen ''tcp'' (''0.0.0.0:'' @ Itoa 12345), ListenUDP ''udp'' 12345,
                  ParamMap_Update 1 0x3930],
        ParamMap := [1 \<mapsto> 0x3930], nextCtx := 1\<rparr>,
      ctx = 0, lport = 12345, tcpLoop = True, udpLoop = True,
      listenerOpen = True, lConnOpen = True, crashed = False, returned = None\<rparr>"

section \<open>Properties\<close>

subsection \<open>Teardown\<close>

lemma Close_loop_run_all:
  "n \<le> length fs \<Longrightarrow> Close_loop fs (int n - 1) err w = run_all (rev (take n fs)) err w"
proof (induction n arbitrary: err w)
  case 0
  then show ?case by (simp add: Close_loop.simps)
next
  case (Suc n)
  then have n: "n < length fs" by simp
  have t: "rev (take (Suc n) fs) = fs ! n # rev (take n fs)"
    using n by (simp add: take_Suc_conv_app_nth)
  show ?case
    using Suc.IH n
    by (subst Close_loop.simps) (simp add: t split: prod.splits option.splits)
qed

lemma add_failures_Some: "add_failures (Some a) es = Some (foldl Errorf_w_v a es)"
  by (cases es) simp_all

lemma add_failures_None: "add_failures None es = combined es"
  by (cases es) simp_all

lemma run_all_invoke_each:
  "run_all fs err w =
     (add_failures err (failures (fst (invoke_each fs w))), snd (invoke_each fs w))"
proof (induction fs arbitrary: err w)
  case Nil
  then show ?case by simp
next
  case (Cons f fs)
  show ?case
    by (cases err) (simp_all add: Cons.IH add_failures_Some split: prod.splits option.splits)
qed

lemma length_invoke_each: "length (fst (invoke_each fs w)) = length fs"
proof (induction fs arbitrary: w)
  case Nil
  then show ?case by simp
next
  case (Cons f fs)
  obtain r w1 where f: "f w = (r, w1)" by (cases "f w")
  obtain rs w2 where i: "invoke_each fs w1 = (rs, w2)" by (cases "invoke_each fs w1")
  from Cons.IH [of w1] i have "length rs = length fs" by simp
  with f i show ?case by simp
qed

lemma joined_snoc: "ms \<noteq> [] \<Longrightarrow> joined (ms @ [m]) = joined ms @ ''; '' @ m"
  by (induction ms rule: joined.induct) simp_all

lemma Error_foldl: "Error (foldl Errorf_w_v e es) = joined (map Error (e # es))"
proof (induction es rule: rev_induct)
  case Nil
  then show ?case by simp
next
  case (snoc x xs)
  have "joined (map Error (e # xs @ [x])) = joined (map Error (e # xs)) @ ''; '' @ Error x"
    using joined_snoc [of "map Error (e # xs)" "Error x"] by simp
  with snoc show ?case by (simp add: Errorf_w_v_def)
qed

lemma combined_message:
  "map_option Error (combined es) = (if es = [] then None else Some (joined (map Error es)))"
  by (cases es) (simp_all add: Error_foldl del: joined.simps)

lemma Close_invoke_each:
  "Close c w =
     (combined (failures (fst (invoke_each (rev (deferFuncs c)) w))),
      snd (invoke_each (rev (deferFuncs c)) w))"
  using Close_loop_run_all [of "length (deferFuncs c)" "deferFuncs c" None w]
  by (simp add: Close_def run_all_invoke_each add_failures_None)

text \<open>
  C1. \<open>Close\<close> does to the world what invoking the registered actions one after the other
  does, each once, from the last registered to the first, none skipped because an earlier
  one failed. It returns nil when none failed and otherwise one error that combines the
  failures in the order they occurred: its message joins their messages with \<open>"; "\<close>.
\<close>

theorem Close_reverse_order_all_failures:
  "Close c w =
     (combined (failures (fst (invoke_each (rev (deferFuncs c)) w))),
      snd (invoke_each (rev (deferFuncs c)) w))
   \<and> length (fst (invoke_each (rev (deferFuncs c)) w)) = length (deferFuncs c)
   \<and> (fst (Close c w) = None) = (failures (fst (invoke_each (rev (deferFuncs c)) w)) = [])
   \<and> map_option Error (fst (Close c w)) =
       (if failures (fst (invoke_each (rev (deferFuncs c)) w)) = [] then None
        else Some (joined (map Error (failures (fst (invoke_each (rev (deferFuncs c)) w))))))"
proof -
  have "(combined es = None) = (es = [])" for es by (cases es) simp_all
  then show ?thesis
    by (simp add: Close_invoke_each length_invoke_each combined_message)
qed

text \<open>Resources acquired in the order A, B, C, the releases of C and B failing: the releases
  run in the order C, B, A and the error names both failures.\<close>

theorem Close_reverse_order_all_failures_witness:
  "map (fst \<circ> snd)
     (logs (snd (Close (plane0\<lparr>deferFuncs := [release ''A'' None,
        release ''B'' (Some (New ''B failed'')), release ''C'' (Some (New ''C failed''))]\<rparr>)
        world0))) = [''C'', ''B'', ''A'']
   \<and> map_option Error
       (fst (Close (plane0\<lparr>deferFuncs := [release ''A'' None,
          release ''B'' (Some (New ''B failed'')), release ''C'' (Some (New ''C failed''))]\<rparr>)
          world0)) = Some ''C failed; B failed''"
  using Close_reverse_order_all_failures
    [of "plane0\<lparr>deferFuncs := [release ''A'' None,
        release ''B'' (Some (New ''B failed'')), release ''C'' (Some (New ''C failed''))]\<rparr>" world0]
  by (simp add: release_def logf_def world0_def Errorf_w_v_def)

subsection \<open>Loading the kernel objects\<close>

lemma retry_load_round:
  "retry_round env w = Some w' \<Longrightarrow> retry_load env w = retry_load env w'"
  by (subst retry_load.simps)
     (auto simp: retry_round_def names_pinned_map_def pinned_map_name_def Let_def
           split: prod.splits option.splits if_splits)

lemma retry_load_last:
  "retry_round env w = None \<Longrightarrow> retry_load env w = Some (load_result env w)"
  by (subst retry_load.simps)
     (auto simp: retry_round_def names_pinned_map_def load_result_def Let_def
           split: prod.splits option.splits if_splits)

lemma retry_load_rounds:
  "rounds n env w = Some w' \<Longrightarrow> retry_round env w' = None \<Longrightarrow>
   retry_load env w = Some (load_result env w')"
proof (induction n arbitrary: w)
  case 0
  then show ?case by (simp add: retry_load_last)
next
  case (Suc n)
  then obtain w1 where r: "retry_round env w = Some w1" and n: "rounds n env w1 = Some w'"
    by (auto split: option.splits)
  from Suc.IH [OF n Suc.prems(2)] retry_load_round [OF r] show ?case by simp
qed

text \<open>Whenever the loop returns, it has made some number of turns and then met a load that
  ends it: fixpoint induction on the loop.\<close>

lemma retry_load_SomeD:
  assumes "retry_load env w = Some y"
  shows "\<exists>n w'. rounds n env w = Some w' \<and> retry_round env w' = None \<and> y = load_result env w'"
proof -
  define P where "P = (\<lambda>(env :: ('a, 'b) env) w y.
    \<exists>n w'. rounds n env w = Some w' \<and> retry_round env w' = None \<and> y = load_result env w')"
  have "P env w y"
  proof (rule retry_load.raw_induct [OF _ assms], goal_cases)
    case (1 retry env w y)
    show ?case
    proof (cases "retry_round env w")
      case None
      have "rounds 0 env w = Some w" by simp
      moreover from 1(2) None have "y = load_result env w"
        by (auto simp: retry_round_def names_pinned_map_def load_result_def Let_def
              split: prod.splits option.splits if_splits)
      ultimately show ?thesis using None unfolding P_def by blast
    next
      case (Some w1)
      with 1(2) have "retry env w1 = Some y"
        by (auto simp: retry_round_def names_pinned_map_def pinned_map_name_def Let_def
              split: prod.splits option.splits if_splits)
      from 1(1) [OF this] obtain n w' where
        "rounds n env w1 = Some w'" "retry_round env w' = None" "y = load_result env w'"
        unfolding P_def by blast
      with Some have "rounds (Suc n) env w = Some w'" by simp
      then show ?thesis
        using \<open>retry_round env w' = None\<close> \<open>y = load_result env w'\<close> unfolding P_def by blast
    qed
  qed
  then show ?thesis by (simp add: P_def)
qed

lemma rounds_Suc_last:
  "rounds (Suc n) env w =
     (case rounds n env w of None \<Rightarrow> None | Some w' \<Rightarrow> retry_round env w')"
proof (induction n arbitrary: w)
  case 0
  then show ?case by (simp split: option.splits)
next
  case (Suc n)
  show ?case
  proof (cases "retry_round env w")
    case None
    then show ?thesis by simp
  next
    case (Some w1)
    with Suc.IH [of w1] show ?thesis by simp
  qed
qed

lemma retry_load_None:
  assumes "\<And>n. rounds n env w \<noteq> None"
  shows "retry_load env w = None"
proof (rule ccontr)
  assume "retry_load env w \<noteq> None"
  then obtain y where "retry_load env w = Some y" by auto
  from retry_load_SomeD [OF this] obtain n w' where
    n: "rounds n env w = Some w'" and l: "retry_round env w' = None" by blast
  have "rounds (Suc n) env w = None"
    using n l by (simp add: rounds_Suc_last del: rounds.simps)
  with assms show False by blast
qed

lemma names_stale: "names_pinned_map stale_map_error"
  by (simp add: names_pinned_map_def stale_map_error_def strings_Index_def
      ErrMapIncompatible_def)

lemma name_stale: "pinned_map_name stale_map_error = ''param_map''"
  by (simp add: pinned_map_name_def stale_map_error_def strings_Index_def SplitN_colon_2_def)

lemma stuck_rounds: "rounds n stuck_env w \<noteq> None"
  by (induction n arbitrary: w) (simp_all add: retry_round_def stuck_env_def names_stale)

lemma twice_rounds: "rounds 2 twice_env world0 = Some warned_twice"
  by (simp add: eval_nat_numeral retry_round_def twice_env_def names_stale name_stale
      world0_def warned_twice_def logf_def env0_def)

lemma twice_last: "retry_round twice_env warned_twice = None"
  by (simp add: retry_round_def twice_env_def world0_def warned_twice_def)

text \<open>
  C6, as stated, fails: where the load keeps failing with the map-incompatibility error of
  a pinned map, the loop of \<open>NewControlPlane\<close> has no cap and the constructor never
  returns, with an error or otherwise.
\<close>

theorem NewControlPlane_persistent_incompatibility_never_returns:
  "NewControlPlane stuck_env ''domain(example.com) -> proxy'' world0 = None"
  using retry_load_None [of stuck_env, OF stuck_rounds]
  by (simp add: NewControlPlane_def NewControlPlane_load_def stuck_env_def env0_def)

text \<open>
  C6, amended. A load that fails with a map-incompatibility error naming a pinned map is
  followed by the removal of that map's pin, a warning and another load, every time and
  without a bound on the number of times: after any number \<open>n\<close> of such turns, the first
  load that succeeds or fails otherwise decides what \<open>NewControlPlane\<close> does (it goes on
  to build the Control Plane, or returns the fatal error), and when every load fails that
  way \<open>NewControlPlane\<close> does not return.
\<close>

theorem NewControlPlane_retry_unbounded:
  assumes "RemoveMemlock env w0 = (None, w)"
  shows "(retry_round env u = Some u' \<longrightarrow> retry_load env u = retry_load env u')
       \<and> (rounds n env (MkdirAll env (pinPath env) w) = Some w' \<and> retry_round env w' = None \<longrightarrow>
            NewControlPlane env routingA w0 =
              Some (case load_result env w' of
                      (Some err, w2) \<Rightarrow> (Inl err, w2)
                    | (None, w2) \<Rightarrow> NewControlPlane_build env routingA w2))
       \<and> ((\<forall>k. rounds k env (MkdirAll env (pinPath env) w) \<noteq> None) \<longrightarrow>
            NewControlPlane env routingA w0 = None)"
proof (intro conjI impI)
  assume "rounds n env (MkdirAll env (pinPath env) w) = Some w' \<and> retry_round env w' = None"
  then have "retry_load env (MkdirAll env (pinPath env) w) = Some (load_result env w')"
    using retry_load_rounds by blast
  then show "NewControlPlane env routingA w0 =
      Some (case load_result env w' of
              (Some err, w2) \<Rightarrow> (Inl err, w2)
            | (None, w2) \<Rightarrow> NewControlPlane_build env routingA w2)"
    using assms
    by (simp add: NewControlPlane_def NewControlPlane_load_def split: prod.splits option.splits)
next
  assume "\<forall>k. rounds k env (MkdirAll env (pinPath env) w) \<noteq> None"
  then have "retry_load env (MkdirAll env (pinPath env) w) = None"
    using retry_load_None by blast
  then show "NewControlPlane env routingA w0 = None"
    using assms by (simp add: NewControlPlane_def NewControlPlane_load_def)
next
  assume "retry_round env u = Some u'"
  then show "retry_load env u = retry_load env u'" by (rule retry_load_round)
qed

text \<open>Two loads fail on the pinned map \<open>param_map\<close> and the third succeeds: the constructor
  goes on after two removals. Every load fails: it never returns.\<close>

theorem NewControlPlane_retry_unbounded_witness:
  "RemoveMemlock twice_env world0 = (None, world0)
   \<and> retry_round twice_env world0 \<noteq> None
   \<and> rounds 2 twice_env (MkdirAll twice_env (pinPath twice_env) world0) = Some warned_twice
   \<and> retry_round twice_env warned_twice = None
   \<and> NewControlPlane twice_env ''domain(example.com) -> proxy'' world0 =
       Some (NewControlPlane_build twice_env ''domain(example.com) -> proxy'' warned_twice)
   \<and> RemoveMemlock stuck_env world0 = (None, world0)
   \<and> (\<forall>k. rounds k stuck_env (MkdirAll stuck_env (pinPath stuck_env) world0) \<noteq> None)
   \<and> NewControlPlane stuck_env ''domain(example.com) -> proxy'' world0 = None"
proof -
  have m: "RemoveMemlock twice_env world0 = (None, world0)"
    "MkdirAll twice_env (pinPath twice_env) world0 = world0"
    by (simp_all add: twice_env_def env0_def)
  have s: "RemoveMemlock stuck_env world0 = (None, world0)"
    "MkdirAll stuck_env (pinPath stuck_env) world0 = world0"
    by (simp_all add: stuck_env_def env0_def)
  have l: "load_result twice_env warned_twice = (None, warned_twice)"
    by (simp add: load_result_def twice_env_def world0_def warned_twice_def)
  have r: "retry_round twice_env world0 \<noteq> None"
    by (simp add: retry_round_def twice_env_def world0_def names_stale)
  show ?thesis
    using NewControlPlane_retry_unbounded
        [OF m(1), of world0 world0 2 warned_twice "''domain(example.com) -> proxy''"]
      NewControlPlane_retry_unbounded
        [OF s(1), of world0 world0 0 world0 "''domain(example.com) -> proxy''"]
      twice_rounds twice_last stuck_rounds r
    by (simp add: m s l)
qed

subsection \<open>Building the Control Plane\<close>

lemma Update_ParamMap_NoneD:
  "Update_ParamMap k v w = (None, w1) \<Longrightarrow>
   w1 = w\<lparr>trace := trace w @ [ParamMap_Update k v], ParamMap := (ParamMap w)(k \<mapsto> v)\<rparr>"
  by (auto simp: Update_ParamMap_def attempt_def Let_def split: option.splits)

lemma NewControlPlane_build_InrD:
  assumes "NewControlPlane_build env routingA w0 = (Inr c, w')"
  shows "\<exists>w1 w2 w3 rules0 rules d builder1 builder2.
      Update_ParamMap (DisableL4TxChecksumKey env) (DisableL4ChecksumPolicy_SetZero env) w0 = (None, w1)
    \<and> Update_ParamMap (DisableL4RxChecksumKey env) (DisableL4ChecksumPolicy_SetZero env) w1 = (None, w2)
    \<and> epoch c = (case Lookup_ParamMap (EpochKey env) w2 of Inl err \<Rightarrow> 0 | Inr v \<Rightarrow> v) + 1
    \<and> Update_ParamMap (EpochKey env) (epoch c) w2 = (None, w3)
    \<and> Parse env routingA = Inr (rules0, Final c)
    \<and> ApplyRulesOptimizers rules0
         [RefineFunctionParamKeyOptimizer env, DatReaderOptimizer env,
          MergeAndSortRulesOptimizer env, DeduplicateParamsOptimizer env] = Inr rules
    \<and> NewFromLink env ''socks5://localhost:1080'' = Inr d
    \<and> outbounds c =
         [NewDialerGroup (OutboundDirect_String env) [FullconeDirectDialer env]
            \<lparr>Policy = DialerSelectionPolicy_Fixed, FixedIndex = 0\<rparr>,
          NewDialerGroup ''proxy'' [d]
            \<lparr>Policy = DialerSelectionPolicy_MinAverage10Latencies, FixedIndex = 0\<rparr>]
    \<and> generate_outboundName2Id (outbounds c) = Inr (outboundName2Id c)
    \<and> ApplyMatcherBuilder env (NewRoutingMatcherBuilder env (outboundName2Id c)) rules (Final c)
         = (None, builder1)
    \<and> Build env builder1 (trace_routing env rules (Final c) w3) = ((None, builder2), w')
    \<and> deferFuncs c = [bpf_Close]"
  using assms unfolding NewControlPlane_build_def Let_def
  by (auto split: prod.splits option.splits sum.splits
      simp del: ApplyRulesOptimizers.simps)

lemma NewControlPlane_SomeD:
  assumes "NewControlPlane env routingA w0 = Some (r, w')"
  shows "(\<exists>err. NewControlPlane_load env w0 = Some (Some err, w') \<and> r = Inl err)
       \<or> (\<exists>w1. NewControlPlane_load env w0 = Some (None, w1)
             \<and> NewControlPlane_build env routingA w1 = (r, w'))"
  using assms by (auto simp: NewControlPlane_def split: option.splits prod.splits)

lemma retry_env0: "retry_load env0 w = Some (None, w)"
  by (subst retry_load.simps) (simp add: env0_def)

lemma env0_fields:
  "BpfPinRoot env0 = ''/sys/fs/bpf''" "AppName env0 = ''foo''"
  "DisableL4TxChecksumKey env0 = 2" "DisableL4RxChecksumKey env0 = 3"
  "DisableL4ChecksumPolicy_SetZero env0 = 2" "EpochKey env0 = 4" "BigEndianTproxyPortKey env0 = 1"
  "OutboundDirect_String env0 = ''direct''"
  "Ipv6ByteSliceToUint32Array env0 = le_words"
  "swap16 env0 = (\<lambda>x. push_bit 8 x OR drop_bit 8 x)"
  "ParseAddrHdr env0 = parse0"
  "RemoveMemlock env0 = (\<lambda>w. (None, w))"
  "MkdirAll env0 = (\<lambda>path w. w)"
  "loadBpfObjects env0 = (\<lambda>path w. (None, w))"
  "os_Remove env0 = (\<lambda>path w. w)"
  "TproxyIngress_FD env0 = 7" "TproxyEgress_FD env0 = 8"
  "IsLevelEnabled env0 = (\<lambda>lvl. lvl \<noteq> TraceLevel)"
  "Parse env0 = (\<lambda>text. if text = [] then Inl (New ''no rule'') else Inr ([text], ''direct''))"
  "RefineFunctionParamKeyOptimizer env0 = (\<lambda>rules. Inr (map (\<lambda>r. r @ ''1'') rules))"
  "DatReaderOptimizer env0 = (\<lambda>rules. Inr (map (\<lambda>r. r @ ''2'') rules))"
  "MergeAndSortRulesOptimizer env0 = (\<lambda>rules. Inr (map (\<lambda>r. r @ ''3'') rules))"
  "DeduplicateParamsOptimizer env0 = (\<lambda>rules. Inr (map (\<lambda>r. r @ ''4'') rules))"
  "rule_String env0 = (\<lambda>r. r)"
  "NewFromLink env0 = (\<lambda>link. Inr (Dialer link))"
  "FullconeDirectDialer env0 = Dialer ''direct''"
  "NewRoutingMatcherBuilder env0 = (\<lambda>name2id. [])"
  "ApplyMatcherBuilder env0 = (\<lambda>builder rules final. (None, builder @ rules @ [final]))"
  "Build env0 = (\<lambda>builder w. ((None, builder), w))"
  "builder_SimulatedLpmTries env0 = (\<lambda>builder. [])"
  "builder_SimulatedDomainSet env0 = (\<lambda>builder. [])"
  by (simp_all add: env0_def)

lemma load_env0: "NewControlPlane_load env0 w = Some (None, w)"
  by (simp add: NewControlPlane_load_def retry_env0 env0_fields)

lemma build_env0:
  "\<exists>c w'. NewControlPlane_build env0 ''domain(example.com) -> proxy'' w = (Inr c, w')"
  if "fault w = (\<lambda>h r. None)"
  using that
  by (simp add: NewControlPlane_build_def env0_fields Update_ParamMap_def attempt_def
      Lookup_ParamMap_def trace_routing_def NewDialerGroup_def generate_outboundName2Id_def
      Let_def split: prod.splits option.splits sum.splits)

lemma pipeline_optimizers:
  "routing_pipeline env routingA =
     (case Parse env routingA of
        Inl e \<Rightarrow> Inl e
      | Inr (rules0, final) \<Rightarrow>
          (case ApplyRulesOptimizers rules0
                  [RefineFunctionParamKeyOptimizer env, DatReaderOptimizer env,
                   MergeAndSortRulesOptimizer env, DeduplicateParamsOptimizer env] of
             Inl e \<Rightarrow> Inl e
           | Inr rules \<Rightarrow> Inr (rules, final)))"
  by (simp add: routing_pipeline_def split: sum.splits prod.splits)

lemma build_pipeline_error:
  assumes "routing_pipeline env routingA = Inl e"
  shows "\<exists>err. fst (NewControlPlane_build env routingA w1) = Inl err"
  using assms unfolding NewControlPlane_build_def Let_def pipeline_optimizers
  by (auto split: prod.splits option.splits sum.splits simp del: ApplyRulesOptimizers.simps)

text \<open>
  C2. A Control Plane is produced only from the rules that Parse, key refinement,
  external-data resolution, merge-and-sort and deduplication yield when applied in this
  order, each to the result of the one before; these rules and the final outbound are what
  the routing matcher builder receives. When Parse or one of the optimizers returns an
  error, \<open>NewControlPlane\<close> produces no Control Plane: whatever it returns is an error, and it
  does return one once the kernel objects are loaded.
\<close>

theorem NewControlPlane_routing_pipeline:
  "(NewControlPlane env routingA w0 = Some (Inr c, w') \<longrightarrow>
      (\<exists>rules builder.
         routing_pipeline env routingA = Inr (rules, Final c)
       \<and> ApplyMatcherBuilder env (NewRoutingMatcherBuilder env (outboundName2Id c)) rules (Final c)
           = (None, builder)))
   \<and> (routing_pipeline env routingA = Inl e \<longrightarrow>
        (\<forall>r. NewControlPlane env routingA w0 = Some r \<longrightarrow> (\<exists>err. fst r = Inl err))
      \<and> (\<forall>w1. NewControlPlane_load env w0 = Some (None, w1) \<longrightarrow>
            (\<exists>err w2. NewControlPlane env routingA w0 = Some (Inl err, w2))))"
proof (intro conjI impI allI)
  assume "NewControlPlane env routingA w0 = Some (Inr c, w')"
  from NewControlPlane_SomeD [OF this] obtain w1 where
    "NewControlPlane_build env routingA w1 = (Inr c, w')" by auto
  from NewControlPlane_build_InrD [OF this] obtain rules0 rules builder1 where
    "Parse env routingA = Inr (rules0, Final c)"
    "ApplyRulesOptimizers rules0
         [RefineFunctionParamKeyOptimizer env, DatReaderOptimizer env,
          MergeAndSortRulesOptimizer env, DeduplicateParamsOptimizer env] = Inr rules"
    "ApplyMatcherBuilder env (NewRoutingMatcherBuilder env (outboundName2Id c)) rules (Final c)
         = (None, builder1)"
    by blast
  then show "\<exists>rules builder.
         routing_pipeline env routingA = Inr (rules, Final c)
       \<and> ApplyMatcherBuilder env (NewRoutingMatcherBuilder env (outboundName2Id c)) rules (Final c)
           = (None, builder)"
    by (auto simp: pipeline_optimizers simp del: ApplyRulesOptimizers.simps)
next
  fix r
  assume e: "routing_pipeline env routingA = Inl e"
    and r: "NewControlPlane env routingA w0 = Some r"
  from r NewControlPlane_SomeD [of env routingA w0 "fst r" "snd r"]
    build_pipeline_error [OF e]
  show "\<exists>err. fst r = Inl err" by (metis fst_conv prod.collapse)
next
  fix w1
  assume e: "routing_pipeline env routingA = Inl e"
    and l: "NewControlPlane_load env w0 = Some (None, w1)"
  from build_pipeline_error [OF e, of w1] obtain err where
    "fst (NewControlPlane_build env routingA w1) = Inl err" by blast
  then have "NewControlPlane_build env routingA w1 = (Inl err, snd (NewControlPlane_build env routingA w1))"
    by (metis prod.collapse)
  with l show "\<exists>err w2. NewControlPlane env routingA w0 = Some (Inl err, w2)"
    by (auto simp: NewControlPlane_def)
qed

text \<open>One rule passes through the four optimizers in order; an empty policy does not parse.\<close>

theorem NewControlPlane_routing_pipeline_witness:
  "(\<exists>c w'. NewControlPlane env0 ''domain(example.com) -> proxy'' world0 = Some (Inr c, w')
       \<and> routing_pipeline env0 ''domain(example.com) -> proxy''
           = Inr ([''domain(example.com) -> proxy1234''], Final c))
   \<and> routing_pipeline env0 [] = Inl (New ''no rule'')
   \<and> NewControlPlane_load env0 world0 = Some (None, world0)
   \<and> (\<exists>err w2. NewControlPlane env0 [] world0 = Some (Inl err, w2))"
proof -
  obtain c w' where c: "NewControlPlane env0 ''domain(example.com) -> proxy'' world0 = Some (Inr c, w')"
    using build_env0 [of world0] by (auto simp: NewControlPlane_def load_env0 world0_def)
  have p: "routing_pipeline env0 ''domain(example.com) -> proxy''
      = Inr ([''domain(example.com) -> proxy1234''], ''direct'')"
    by (simp add: routing_pipeline_def env0_fields)
  from NewControlPlane_routing_pipeline
    [of env0 "''domain(example.com) -> proxy''" world0 c w' "New ''no rule''"] c p
  have f: "Final c = ''direct''" by auto
  have e: "routing_pipeline env0 [] = Inl (New ''no rule'')"
    by (simp add: routing_pipeline_def env0_fields)
  from NewControlPlane_routing_pipeline [of env0 "[]" world0 c w' "New ''no rule''"] e
    load_env0 [of world0]
  have "\<exists>err w2. NewControlPlane env0 [] world0 = Some (Inl err, w2)" by blast
  with c p f e load_env0 [of world0] show ?thesis by auto
qed

lemma assign_ids_other: "n \<notin> Name ` set obs \<Longrightarrow> assign_ids i obs m n = m n"
  by (induction obs arbitrary: i m) simp_all

lemma dom_assign_ids: "dom (assign_ids i obs m) = dom m \<union> Name ` set obs"
  by (induction obs arbitrary: i m) auto

lemma assign_ids_nth:
  "distinct (map Name obs) \<Longrightarrow> k < length obs \<Longrightarrow>
   assign_ids i obs m (Name (obs ! k)) = Some (of_nat (i + k))"
proof (induction obs arbitrary: i m k)
  case Nil
  then show ?case by simp
next
  case (Cons ob obs)
  show ?case
  proof (cases k)
    case 0
    with Cons.prems show ?thesis by (simp add: assign_ids_other)
  next
    case (Suc j)
    with Cons.prems have "assign_ids (i + 1) obs (m(Name ob \<mapsto> of_nat i)) (Name (obs ! j))
        = Some (of_nat (i + 1 + j))"
      by (intro Cons.IH) simp_all
    with Suc show ?thesis by (simp add: add.commute add.left_commute)
  qed
qed

lemma unat_u8_index: "k < 256 \<Longrightarrow> unat (of_nat k :: u8) = k"
  by (simp add: unat_of_nat)

lemma assign_ids_last:
  "n \<in> Name ` set obs \<Longrightarrow>
   \<exists>j<length obs. Name (obs ! j) = n
      \<and> (\<forall>i'<length obs. Name (obs ! i') = n \<longrightarrow> i' \<le> j)
      \<and> assign_ids i obs m n = Some (of_nat (i + j))"
proof (induction obs arbitrary: i m)
  case Nil
  then show ?case by simp
next
  case (Cons ob obs)
  show ?case
  proof (cases "n \<in> Name ` set obs")
    case True
    from Cons.IH [OF True, of "i + 1" "m(Name ob \<mapsto> of_nat i)"] obtain j where
      j: "j < length obs" "Name (obs ! j) = n"
      "\<forall>i'<length obs. Name (obs ! i') = n \<longrightarrow> i' \<le> j"
      "assign_ids (i + 1) obs (m(Name ob \<mapsto> of_nat i)) n = Some (of_nat (i + 1 + j))"
      by blast
    have "\<forall>i'<length (ob # obs). Name ((ob # obs) ! i') = n \<longrightarrow> i' \<le> Suc j"
    proof (intro allI impI)
      fix i' assume "i' < length (ob # obs)" "Name ((ob # obs) ! i') = n"
      with j(3) show "i' \<le> Suc j" by (cases i') auto
    qed
    with j show ?thesis
      by (intro exI [of _ "Suc j"]) (simp add: add.commute add.left_commute)
  next
    case False
    with Cons.prems have n: "n = Name ob" by auto
    have "\<forall>i'<length (ob # obs). Name ((ob # obs) ! i') = n \<longrightarrow> i' \<le> 0"
    proof (intro allI impI)
      fix i' assume "i' < length (ob # obs)" "Name ((ob # obs) ! i') = n"
      with False show "i' \<le> 0" by (cases i') auto
    qed
    with False n show ?thesis
      by (intro exI [of _ 0]) (simp add: assign_ids_other)
  qed
qed

lemma generate_ok:
  assumes "length obs \<le> 255"
  shows "\<exists>m. generate_outboundName2Id obs = Inr m \<and> dom m = Name ` set obs
     \<and> (\<forall>k<length obs. \<exists>j<length obs. Name (obs ! j) = Name (obs ! k)
            \<and> (\<forall>i<length obs. Name (obs ! i) = Name (obs ! k) \<longrightarrow> i \<le> j)
            \<and> m (Name (obs ! k)) = Some (of_nat j))
     \<and> (distinct (map Name obs) \<longrightarrow>
          (\<forall>k<length obs. m (Name (obs ! k)) = Some (of_nat k) \<and> unat (of_nat k :: u8) = k)
          \<and> inj_on m (Name ` set obs))"
proof -
  let ?m = "assign_ids 0 obs Map.empty"
  have g: "generate_outboundName2Id obs = Inr ?m"
    using assms by (simp add: generate_outboundName2Id_def)
  have d: "dom ?m = Name ` set obs" by (simp add: dom_assign_ids)
  have la: "\<forall>k<length obs. \<exists>j<length obs. Name (obs ! j) = Name (obs ! k)
            \<and> (\<forall>i<length obs. Name (obs ! i) = Name (obs ! k) \<longrightarrow> i \<le> j)
            \<and> ?m (Name (obs ! k)) = Some (of_nat j)"
  proof (intro allI impI)
    fix k assume "k < length obs"
    then have "Name (obs ! k) \<in> Name ` set obs" by simp
    from assign_ids_last [OF this, of 0 Map.empty]
    show "\<exists>j<length obs. Name (obs ! j) = Name (obs ! k)
            \<and> (\<forall>i<length obs. Name (obs ! i) = Name (obs ! k) \<longrightarrow> i \<le> j)
            \<and> ?m (Name (obs ! k)) = Some (of_nat j)"
      by simp
  qed
  have "(\<forall>k<length obs. ?m (Name (obs ! k)) = Some (of_nat k) \<and> unat (of_nat k :: u8) = k)
        \<and> inj_on ?m (Name ` set obs)" if dist: "distinct (map Name obs)"
  proof
    show nth: "\<forall>k<length obs. ?m (Name (obs ! k)) = Some (of_nat k) \<and> unat (of_nat k :: u8) = k"
      using assign_ids_nth [OF dist, of _ 0 Map.empty] assms by (auto simp: unat_u8_index)
    show "inj_on ?m (Name ` set obs)"
    proof (rule inj_onI)
      fix a b assume a: "a \<in> Name ` set obs" and b: "b \<in> Name ` set obs" and e: "?m a = ?m b"
      from a obtain i where i: "i < length obs" "a = Name (obs ! i)"
        by (auto simp: in_set_conv_nth)
      from b obtain j where j: "j < length obs" "b = Name (obs ! j)"
        by (auto simp: in_set_conv_nth)
      from nth i j e have "(of_nat i :: u8) = of_nat j" by simp
      then have "unat (of_nat i :: u8) = unat (of_nat j :: u8)" by simp
      with nth i j have "i = j" by simp
      with i j show "a = b" by simp
    qed
  qed
  with g d la show ?thesis by blast
qed

lemma distinct_many: "distinct (map Name (many_outbounds n))"
proof -
  have "map Name (many_outbounds n) = map (\<lambda>i. replicate i (CHR ''x'')) [0..<n]"
    by (simp add: many_outbounds_def NewDialerGroup_def comp_def)
  moreover have "inj_on (\<lambda>i. replicate i (CHR ''x'')) (set [0..<n])"
    by (rule inj_onI) (metis length_replicate)
  ultimately show ?thesis by (simp add: distinct_map)
qed

text \<open>
  C3. The table of outbound ids is refused with an error when more than 255 outbounds are
  declared. With at most 255, every declared name gets an id, the index of the last outbound
  declared with this name; so when the names are distinct,
  the id of each outbound is its index in the declaration order, a value that fits in one
  byte, and different names have different ids. The table of a Control Plane is the one
  generated this way from its outbounds.
\<close>

theorem outbound_ids_by_index:
  "(255 < length obs \<longrightarrow> generate_outboundName2Id obs = Inl (New ''too many outbounds''))
   \<and> (length obs \<le> 255 \<longrightarrow>
        (\<exists>m. generate_outboundName2Id obs = Inr m \<and> dom m = Name ` set obs
           \<and> (\<forall>k<length obs. \<exists>j<length obs. Name (obs ! j) = Name (obs ! k)
                  \<and> (\<forall>i<length obs. Name (obs ! i) = Name (obs ! k) \<longrightarrow> i \<le> j)
                  \<and> m (Name (obs ! k)) = Some (of_nat j))
           \<and> (distinct (map Name obs) \<longrightarrow>
                (\<forall>k<length obs. m (Name (obs ! k)) = Some (of_nat k) \<and> unat (of_nat k :: u8) = k)
                \<and> inj_on m (Name ` set obs))))
   \<and> (NewControlPlane env routingA w0 = Some (Inr c, w') \<longrightarrow>
        length (outbounds c) = 2
        \<and> generate_outboundName2Id (outbounds c) = Inr (outboundName2Id c))"
proof (intro conjI impI)
  assume "255 < length obs"
  then show "generate_outboundName2Id obs = Inl (New ''too many outbounds'')"
    by (simp add: generate_outboundName2Id_def)
next
  assume "length obs \<le> 255"
  then show "\<exists>m. generate_outboundName2Id obs = Inr m \<and> dom m = Name ` set obs
           \<and> (\<forall>k<length obs. \<exists>j<length obs. Name (obs ! j) = Name (obs ! k)
                  \<and> (\<forall>i<length obs. Name (obs ! i) = Name (obs ! k) \<longrightarrow> i \<le> j)
                  \<and> m (Name (obs ! k)) = Some (of_nat j))
           \<and> (distinct (map Name obs) \<longrightarrow>
                (\<forall>k<length obs. m (Name (obs ! k)) = Some (of_nat k) \<and> unat (of_nat k :: u8) = k)
                \<and> inj_on m (Name ` set obs))"
    by (rule generate_ok)
next
  assume "NewControlPlane env routingA w0 = Some (Inr c, w')"
  from NewControlPlane_SomeD [OF this] obtain w1 where
    "NewControlPlane_build env routingA w1 = (Inr c, w')" by auto
  from NewControlPlane_build_InrD [OF this]
  show "length (outbounds c) = 2" and "generate_outboundName2Id (outbounds c) = Inr (outboundName2Id c)"
    by auto
qed

text \<open>256 outbounds are refused; of 255 the last has id 254; the Control Plane built from the
  source's two outbounds maps \<open>direct\<close> to 0 and \<open>proxy\<close> to 1.\<close>

theorem outbound_ids_by_index_witness:
  "generate_outboundName2Id (many_outbounds 256) = Inl (New ''too many outbounds'')
   \<and> (\<exists>m. generate_outboundName2Id (many_outbounds 255) = Inr m
         \<and> m (replicate 254 (CHR ''x'')) = Some 254)
   \<and> (\<exists>c w'. NewControlPlane env0 ''domain(example.com) -> proxy'' world0 = Some (Inr c, w')
         \<and> outboundName2Id c ''direct'' = Some 0 \<and> outboundName2Id c ''proxy'' = Some 1)"
proof -
  have a: "generate_outboundName2Id (many_outbounds 256) = Inl (New ''too many outbounds'')"
    using outbound_ids_by_index [of "many_outbounds 256" env0 "[]" world0 plane0 world0]
    by (simp add: many_outbounds_def)
  have l: "length (many_outbounds 255) \<le> 255" by (simp add: many_outbounds_def)
  have n: "Name (many_outbounds 255 ! 254) = replicate 254 (CHR ''x'')"
    by (simp add: many_outbounds_def NewDialerGroup_def)
  from outbound_ids_by_index [of "many_outbounds 255" env0 "[]" world0 plane0 world0]
    l distinct_many [of 255]
  obtain m where m: "generate_outboundName2Id (many_outbounds 255) = Inr m"
    "\<forall>k<length (many_outbounds 255). m (Name (many_outbounds 255 ! k)) = Some (of_nat k)"
    by blast
  have "254 < length (many_outbounds 255)" by (simp add: many_outbounds_def)
  with m(2) have "m (Name (many_outbounds 255 ! 254)) = Some (of_nat 254)" by blast
  then have b: "m (replicate 254 (CHR ''x'')) = Some 254" by (simp add: n)
  obtain c w' where c: "NewControlPlane env0 ''domain(example.com) -> proxy'' world0 = Some (Inr c, w')"
    using build_env0 [of world0] by (auto simp: NewControlPlane_def load_env0 world0_def)
  from NewControlPlane_SomeD [OF c] load_env0 [of world0]
  have bc: "NewControlPlane_build env0 ''domain(example.com) -> proxy'' world0 = (Inr c, w')"
    by auto
  from NewControlPlane_build_InrD [OF bc]
  have o: "outbounds c = two_outbounds"
    by (auto simp: env0_fields two_outbounds_def)
  from outbound_ids_by_index [of "[]" env0 "''domain(example.com) -> proxy''" world0 c w'] c
  have "generate_outboundName2Id two_outbounds = Inr (outboundName2Id c)"
    by (simp add: o)
  then have "outboundName2Id c = [''direct'' \<mapsto> 0, ''proxy'' \<mapsto> 1]"
    by (simp add: generate_outboundName2Id_def two_outbounds_def NewDialerGroup_def)
  then have "outboundName2Id c ''direct'' = Some 0 \<and> outboundName2Id c ''proxy'' = Some 1"
    by simp
  with a m(1) b c show ?thesis by blast
qed

text \<open>
  C4. A successful \<open>NewControlPlane\<close> reads the epoch the parameter store holds once the
  kernel objects are loaded (zero when it holds none), stores that value plus one in 32-bit
  arithmetic with one update, and the Control Plane's epoch is the stored value: the
  persisted epoch has gone up by exactly one (below the largest 32-bit value, also as a
  number). The epoch key is not one of the two checksum keys, and building the routing
  matcher leaves the epoch slot alone.
\<close>

theorem NewControlPlane_epoch:
  assumes ok: "NewControlPlane env routingA w0 = Some (Inr c, w')"
    and tx: "EpochKey env \<noteq> DisableL4TxChecksumKey env"
    and rx: "EpochKey env \<noteq> DisableL4RxChecksumKey env"
    and frame: "\<forall>b w. ParamMap (snd (Build env b w)) (EpochKey env) = ParamMap w (EpochKey env)"
  shows "\<exists>w1 w3. NewControlPlane_load env w0 = Some (None, w1)
      \<and> epoch c = stored_epoch env w1 + 1
      \<and> (unat (stored_epoch env w1) < 2 ^ 32 - 1 \<longrightarrow> unat (epoch c) = unat (stored_epoch env w1) + 1)
      \<and> trace w3 = trace w1 @
           [ParamMap_Update (DisableL4TxChecksumKey env) (DisableL4ChecksumPolicy_SetZero env),
            ParamMap_Update (DisableL4RxChecksumKey env) (DisableL4ChecksumPolicy_SetZero env),
            ParamMap_Update (EpochKey env) (epoch c)]
      \<and> ParamMap w3 (EpochKey env) = Some (epoch c)
      \<and> (\<exists>rules b. w' = snd (Build env b (trace_routing env rules (Final c) w3)))
      \<and> ParamMap w' (EpochKey env) = Some (epoch c)"
proof -
  from NewControlPlane_SomeD [OF ok] obtain w1 where
    l: "NewControlPlane_load env w0 = Some (None, w1)"
    and b: "NewControlPlane_build env routingA w1 = (Inr c, w')" by auto
  from NewControlPlane_build_InrD [OF b] obtain wa wb w3 rules builder1 builder2 where
    u1: "Update_ParamMap (DisableL4TxChecksumKey env) (DisableL4ChecksumPolicy_SetZero env) w1 = (None, wa)"
    and u2: "Update_ParamMap (DisableL4RxChecksumKey env) (DisableL4ChecksumPolicy_SetZero env) wa = (None, wb)"
    and e: "epoch c = (case Lookup_ParamMap (EpochKey env) wb of Inl err \<Rightarrow> 0 | Inr v \<Rightarrow> v) + 1"
    and u3: "Update_ParamMap (EpochKey env) (epoch c) wb = (None, w3)"
    and bd: "Build env builder1 (trace_routing env rules (Final c) w3) = ((None, builder2), w')"
    by blast
  note d1 = Update_ParamMap_NoneD [OF u1] and d2 = Update_ParamMap_NoneD [OF u2]
    and d3 = Update_ParamMap_NoneD [OF u3]
  have pb: "ParamMap wb (EpochKey env) = ParamMap w1 (EpochKey env)"
    using tx rx by (simp add: d1 d2)
  have ep: "epoch c = stored_epoch env w1 + 1"
    using e pb by (simp add: Lookup_ParamMap_def stored_epoch_def split: option.splits)
  have un: "unat (epoch c) = unat (stored_epoch env w1) + 1"
    if "unat (stored_epoch env w1) < 2 ^ 32 - 1"
    using that unfolding ep by (simp add: unat_word_ariths)
  have tr: "trace w3 = trace w1 @
           [ParamMap_Update (DisableL4TxChecksumKey env) (DisableL4ChecksumPolicy_SetZero env),
            ParamMap_Update (DisableL4RxChecksumKey env) (DisableL4ChecksumPolicy_SetZero env),
            ParamMap_Update (EpochKey env) (epoch c)]"
    by (simp add: d1 d2 d3)
  have p3: "ParamMap w3 (EpochKey env) = Some (epoch c)" by (simp add: d3)
  have pt: "ParamMap (trace_routing env rules (Final c) w3) (EpochKey env) = Some (epoch c)"
    using p3 by (simp add: trace_routing_def logf_def)
  have w': "w' = snd (Build env builder1 (trace_routing env rules (Final c) w3))"
    using bd by simp
  have "ParamMap w' (EpochKey env) = Some (epoch c)"
    using frame pt unfolding w' by simp
  with l ep un tr p3 w' show ?thesis by blast
qed

text \<open>The store holds epoch 41: the new Control Plane has epoch 42 and so has the store.\<close>

theorem NewControlPlane_epoch_witness:
  "EpochKey env0 \<noteq> DisableL4TxChecksumKey env0
   \<and> EpochKey env0 \<noteq> DisableL4RxChecksumKey env0
   \<and> (\<forall>b w. ParamMap (snd (Build env0 b w)) (EpochKey env0) = ParamMap w (EpochKey env0))
   \<and> stored_epoch env0 (world0\<lparr>ParamMap := [4 \<mapsto> 41]\<rparr>) = 41
   \<and> (\<exists>c w'. NewControlPlane env0 ''domain(example.com) -> proxy''
                 (world0\<lparr>ParamMap := [4 \<mapsto> 41]\<rparr>) = Some (Inr c, w')
         \<and> epoch c = 42 \<and> ParamMap w' 4 = Some 42)"
proof -
  let ?w = "world0\<lparr>ParamMap := [4 \<mapsto> 41]\<rparr>"
  have k: "EpochKey env0 \<noteq> DisableL4TxChecksumKey env0"
    "EpochKey env0 \<noteq> DisableL4RxChecksumKey env0"
    "\<forall>b w. ParamMap (snd (Build env0 b w)) (EpochKey env0) = ParamMap w (EpochKey env0)"
    by (simp_all add: env0_fields)
  have s: "stored_epoch env0 ?w = 41" by (simp add: stored_epoch_def env0_fields)
  obtain c w' where c: "NewControlPlane env0 ''domain(example.com) -> proxy'' ?w = Some (Inr c, w')"
    using build_env0 [of ?w] by (auto simp: NewControlPlane_def load_env0 world0_def)
  from NewControlPlane_epoch [OF c k] load_env0 [of ?w] s
  have "epoch c = 42 \<and> ParamMap w' 4 = Some 42" by (auto simp: env0_fields)
  with k s c show ?thesis by blast
qed

subsection \<open>Binding an interface\<close>

lemma Is6_iff: "Is6 ip = (\<not> Is4 ip)"
  by (cases ip) simp_all

lemma linkIp_loop_general:
  "linkIp_loop env xs acc =
     \<lparr>Ip4 = (if HasIp4 acc then Ip4 acc
             else case find Is4 (eligible xs) of
                    None \<Rightarrow> Ip4 acc
                  | Some ip \<Rightarrow> Ipv6ByteSliceToUint32Array env (As16 ip)),
      Ip6 = (if HasIp6 acc then Ip6 acc
             else case find Is6 (eligible xs) of
                    None \<Rightarrow> Ip6 acc
                  | Some ip \<Rightarrow> Ipv6ByteSliceToUint32Array env (As16 ip)),
      HasIp4 = (HasIp4 acc \<or> find Is4 (eligible xs) \<noteq> None),
      HasIp6 = (HasIp6 acc \<or> find Is6 (eligible xs) \<noteq> None)\<rparr>"
proof (induction xs arbitrary: acc)
  case Nil
  then show ?case by simp
next
  case (Cons x xs)
  show ?case
  proof (cases "AddrFromSlice x")
    case None
    then show ?thesis by (simp add: Cons.IH)
  next
    case (Some ip)
    show ?thesis
    proof (cases "IsLinkLocalUnicast ip \<or> IsLinkLocalMulticast ip")
      case True
      with Some show ?thesis by (simp add: Cons.IH)
    next
      case False
      show ?thesis
      proof (cases "Is4 ip")
        case True
        with Some False show ?thesis
          by (cases "HasIp4 acc"; cases "HasIp6 acc") (simp_all add: Cons.IH Is6_iff Let_def split: option.splits)
      next
        case no4: False
        with Some False show ?thesis
          by (cases "HasIp4 acc"; cases "HasIp6 acc") (simp_all add: Cons.IH Is6_iff Let_def split: option.splits)
      qed
    qed
  qed
qed

lemma linkIp_loop_address_record:
  "linkIp_loop env ipnets zero_bpfIfIp = address_record env ipnets"
  by (simp add: linkIp_loop_general address_record_def zero_bpfIfIp_def split: option.splits)

lemma attempt_frame:
  assumes "\<And>w1. IfindexIpMap (snd (effect w1)) = IfindexIpMap w1"
  shows "IfindexIpMap (snd (attempt r effect w)) = IfindexIpMap w"
  using assms [of "w\<lparr>trace := trace w @ [r]\<rparr>"]
  by (simp add: attempt_def Let_def split: option.splits)

lemma netlink_frames:
  "IfindexIpMap (snd (netlink_QdiscAdd q w)) = IfindexIpMap w"
  "IfindexIpMap (snd (netlink_QdiscDel q w)) = IfindexIpMap w"
  "IfindexIpMap (snd (netlink_FilterAdd f w)) = IfindexIpMap w"
  "IfindexIpMap (snd (netlink_FilterDel f w)) = IfindexIpMap w"
  "IfindexIpMap (snd (netlink_LinkByName ifname w)) = IfindexIpMap w"
  "IfindexIpMap (snd (netlink_AddrList link w)) = IfindexIpMap w"
  by (simp_all add: netlink_QdiscAdd_def netlink_QdiscDel_def netlink_FilterAdd_def
      netlink_FilterDel_def netlink_LinkByName_def netlink_AddrList_def attempt_frame Let_def
      split: option.splits)

lemma add_qdisc_frame: "IfindexIpMap (snd (add_qdisc q w)) = IfindexIpMap w"
proof -
  have a: "IfindexIpMap w1 = IfindexIpMap w" if "netlink_QdiscAdd q w = (r, w1)" for r w1
    using netlink_frames(1) [of q w] that by simp
  have b: "IfindexIpMap w2 = IfindexIpMap w1" if "netlink_QdiscDel q w1 = (r, w2)" for r w1 w2
    using netlink_frames(2) [of q w1] that by simp
  show ?thesis
    using netlink_frames(1)
    by (auto simp: add_qdisc_def dest!: a b split: prod.splits option.splits)
qed

lemma LinkByName_InrD:
  "netlink_LinkByName ifname w = (Inr link, w1) \<Longrightarrow> links w ifname = Some link"
  by (auto simp: netlink_LinkByName_def Let_def split: option.splits)

lemma AddrList_InrD:
  "netlink_AddrList link w = (Inr ipnets, w1) \<Longrightarrow> ipnets = Addrs link"
  by (auto simp: netlink_AddrList_def Let_def split: option.splits)

lemma Update_IfindexIpMap_NoneD:
  "Update_IfindexIpMap k v w = (None, w1) \<Longrightarrow> IfindexIpMap w1 = (IfindexIpMap w)(k \<mapsto> v)"
  by (auto simp: Update_IfindexIpMap_def attempt_def Let_def split: option.splits)

lemma Update_IfindexIpMap_SomeD:
  "Update_IfindexIpMap k v w = (Some e, w1) \<Longrightarrow> IfindexIpMap w1 = IfindexIpMap w"
  by (auto simp: Update_IfindexIpMap_def attempt_def Let_def split: option.splits)

lemma BindLink_NoneD:
  assumes "BindLink env c ifname w0 = ((None, c'), w')"
  shows "\<exists>link w1 w2 w3 w4 w5.
      netlink_LinkByName ifname w0 = (Inr link, w1)
    \<and> netlink_AddrList link w1 = (Inr (Addrs link), w2)
    \<and> Addrs link \<noteq> []
    \<and> Update_IfindexIpMap (word_of_int (Index link))
         (linkIp_loop env (Addrs link) zero_bpfIfIp) w2 = (None, w3)
    \<and> add_qdisc (clsact_qdisc link) w3 = (None, w4)
    \<and> netlink_FilterAdd (ingress_filter env link) w4 = (None, w5)
    \<and> netlink_FilterAdd (egress_filter env link) w5 = (None, w')
    \<and> deferFuncs c' = deferFuncs c @
         [netlink_QdiscDel (clsact_qdisc link), netlink_FilterDel (ingress_filter env link),
          netlink_FilterDel (ingress_filter env link)]"
  using assms unfolding BindLink_def Let_def
  by (auto split: prod.splits option.splits sum.splits if_splits dest: AddrList_InrD)

lemma frameD:
  "netlink_LinkByName ifname w = (x, w1) \<Longrightarrow> IfindexIpMap w1 = IfindexIpMap w"
  "netlink_AddrList link w = (y, w1) \<Longrightarrow> IfindexIpMap w1 = IfindexIpMap w"
  "add_qdisc q w = (r, w1) \<Longrightarrow> IfindexIpMap w1 = IfindexIpMap w"
  "netlink_FilterAdd f w = (r, w1) \<Longrightarrow> IfindexIpMap w1 = IfindexIpMap w"
  using netlink_frames(5) [of ifname w] netlink_frames(6) [of link w] add_qdisc_frame [of q w]
    netlink_frames(3) [of f w]
  by simp_all

lemma BindLink_IfindexIpMap:
  assumes "BindLink env c ifname w0 = ((r, c'), w')"
  shows "IfindexIpMap w' = IfindexIpMap w0
       \<or> (\<exists>link. links w0 ifname = Some link \<and> Addrs link \<noteq> []
             \<and> IfindexIpMap w' =
                 (IfindexIpMap w0)(word_of_int (Index link) \<mapsto> address_record env (Addrs link)))"
proof -
  obtain x w1 where l: "netlink_LinkByName ifname w0 = (x, w1)"
    by (cases "netlink_LinkByName ifname w0")
  note f1 = frameD(1) [OF l]
  show ?thesis
  proof (cases x)
    case (Inl err)
    with assms l f1 show ?thesis by (simp add: BindLink_def)
  next
    case (Inr link)
    note lk = LinkByName_InrD [OF l [unfolded Inr]]
    obtain y w2 where a: "netlink_AddrList link w1 = (y, w2)"
      by (cases "netlink_AddrList link w1")
    note f2 = frameD(2) [OF a]
    show ?thesis
    proof (cases y)
      case (Inl err)
      with assms l Inr a f1 f2 show ?thesis by (simp add: BindLink_def)
    next
      case ip: (Inr ipnets)
      then have ipn: "ipnets = Addrs link" using a AddrList_InrD by blast
      show ?thesis
      proof (cases "Addrs link = []")
        case True
        with assms l Inr a ip ipn f1 f2 show ?thesis by (simp add: BindLink_def)
      next
        case False
        obtain u w3 where up: "Update_IfindexIpMap (word_of_int (Index link))
             (linkIp_loop env (Addrs link) zero_bpfIfIp) w2 = (u, w3)"
          by (cases "Update_IfindexIpMap (word_of_int (Index link))
             (linkIp_loop env (Addrs link) zero_bpfIfIp) w2")
        show ?thesis
        proof (cases u)
          case (Some err)
          with assms l Inr a ip ipn f1 f2 False up Update_IfindexIpMap_SomeD [OF up [unfolded Some]]
          show ?thesis by (simp add: BindLink_def)
        next
          case None
          have m3: "IfindexIpMap w3 =
              (IfindexIpMap w0)(word_of_int (Index link) \<mapsto> address_record env (Addrs link))"
            using Update_IfindexIpMap_NoneD [OF up [unfolded None]] f1 f2
            by (simp add: linkIp_loop_address_record)
          have "IfindexIpMap w' = IfindexIpMap w3"
            using assms l Inr a ip ipn False up None
            unfolding BindLink_def Let_def
            by (auto split: prod.splits option.splits dest!: frameD(3,4))
          with m3 lk False show ?thesis by auto
        qed
      qed
    qed
  qed
qed

text \<open>
  C9. Whatever the list of addresses of the interface, the record \<open>BindLink\<close> computes holds
  the first IPv4 address and the first IPv6 address, in list order, among those that are
  well-formed and not link-local, each converted from its 16-byte form and with its
  presence flag set; a family without such an address has no flag and no address. This record
  is the only thing \<open>BindLink\<close> writes into the address map, under the index of the
  interface: the map is either unchanged or changed in that one slot, and on success it is
  changed in that slot.
\<close>

theorem BindLink_address_record:
  "linkIp_loop env ipnets zero_bpfIfIp = address_record env ipnets
   \<and> (BindLink env c ifname w0 = ((r, c'), w') \<longrightarrow>
        IfindexIpMap w' = IfindexIpMap w0
        \<or> (\<exists>link. links w0 ifname = Some link \<and> Addrs link \<noteq> []
              \<and> IfindexIpMap w' =
                  (IfindexIpMap w0)(word_of_int (Index link) \<mapsto> address_record env (Addrs link))))
   \<and> (BindLink env c ifname w0 = ((None, c'), w') \<longrightarrow>
        (\<exists>link. links w0 ifname = Some link \<and> Addrs link \<noteq> []
              \<and> IfindexIpMap w' =
                  (IfindexIpMap w0)(word_of_int (Index link) \<mapsto> address_record env (Addrs link))))"
proof (intro conjI impI)
  show "linkIp_loop env ipnets zero_bpfIfIp = address_record env ipnets"
    by (rule linkIp_loop_address_record)
next
  assume "BindLink env c ifname w0 = ((r, c'), w')"
  then show "IfindexIpMap w' = IfindexIpMap w0
        \<or> (\<exists>link. links w0 ifname = Some link \<and> Addrs link \<noteq> []
              \<and> IfindexIpMap w' =
                  (IfindexIpMap w0)(word_of_int (Index link) \<mapsto> address_record env (Addrs link)))"
    by (rule BindLink_IfindexIpMap)
next
  assume b: "BindLink env c ifname w0 = ((None, c'), w')"
  from BindLink_NoneD [OF b] obtain link w1 w2 w3 w4 w5 where
    l: "netlink_LinkByName ifname w0 = (Inr link, w1)"
    and a: "netlink_AddrList link w1 = (Inr (Addrs link), w2)"
    and ne: "Addrs link \<noteq> []"
    and u: "Update_IfindexIpMap (word_of_int (Index link))
         (linkIp_loop env (Addrs link) zero_bpfIfIp) w2 = (None, w3)"
    and q: "add_qdisc (clsact_qdisc link) w3 = (None, w4)"
    and f: "netlink_FilterAdd (ingress_filter env link) w4 = (None, w5)"
    and g: "netlink_FilterAdd (egress_filter env link) w5 = (None, w')"
    by blast
  have "IfindexIpMap w' = IfindexIpMap w3"
    using frameD(3) [OF q] frameD(4) [OF f] frameD(4) [OF g] by simp
  also have "\<dots> = (IfindexIpMap w0)(word_of_int (Index link) \<mapsto> address_record env (Addrs link))"
    using Update_IfindexIpMap_NoneD [OF u] frameD(1) [OF l] frameD(2) [OF a]
    by (simp add: linkIp_loop_address_record)
  finally show "\<exists>link. links w0 ifname = Some link \<and> Addrs link \<noteq> []
              \<and> IfindexIpMap w' =
                  (IfindexIpMap w0)(word_of_int (Index link) \<mapsto> address_record env (Addrs link))"
    using LinkByName_InrD [OF l] ne by blast
qed

lemma eligible_eth0:
  "eligible (Addrs eth0) = [Addr4 [192, 168, 1, 2], Addr4 [10, 0, 0, 1],
     Addr6 [0x20, 0x01, 0x0d, 0xb8, 0, 0, 0, 0, 0, 0, 0, 0, 0, 0, 0, 1]]"
  by (simp add: eth0_def AddrFromSlice_def v6u16_0_def)

lemma record_eth0:
  "address_record env0 (Addrs eth0) =
     \<lparr>Ip4 = [0, 0, 0xFFFF0000, 0x0201A8C0], Ip6 = [0xB80D0120, 0, 0, 0x01000000],
      HasIp4 = True, HasIp6 = True\<rparr>"
  by (simp add: address_record_def eligible_eth0 env0_fields)

lemma ingress_not_egress: "ingress_filter env0 eth0 \<noteq> egress_filter env0 eth0"
  by (simp add: ingress_filter_def egress_filter_def HANDLE_MIN_INGRESS_def HANDLE_MIN_EGRESS_def)

lemma BindLink_eth0:
  "BindLink env0 plane0 ''eth0'' world_eth0 =
     ((None, plane0\<lparr>deferFuncs := [netlink_QdiscDel (clsact_qdisc eth0),
          netlink_FilterDel (ingress_filter env0 eth0),
          netlink_FilterDel (ingress_filter env0 eth0)]\<rparr>), bound_eth0)"
proof -
  have i: "Index eth0 = 2" "Addrs eth0 \<noteq> []" by (simp_all add: eth0_def)
  show ?thesis
    unfolding BindLink_def
    by (simp add: netlink_LinkByName_def netlink_AddrList_def world_eth0_def world0_def
        linkIp_loop_address_record Update_IfindexIpMap_def attempt_def add_qdisc_def
        netlink_QdiscAdd_def netlink_FilterAdd_def plane0_def bound_eth0_def i ingress_not_egress
        ingress_not_egress [symmetric] Let_def)
qed

lemma Close_eth0:
  "Close (plane0\<lparr>deferFuncs := [netlink_QdiscDel (clsact_qdisc eth0),
          netlink_FilterDel (ingress_filter env0 eth0),
          netlink_FilterDel (ingress_filter env0 eth0)]\<rparr>) bound_eth0 =
   (Some ENOENT, bound_eth0\<lparr>
      trace := trace bound_eth0 @ [FilterDel (ingress_filter env0 eth0),
         FilterDel (ingress_filter env0 eth0), QdiscDel (clsact_qdisc eth0)],
      qdiscs := [], filters := [egress_filter env0 eth0]\<rparr>)"
  by (simp add: Close_invoke_each netlink_FilterDel_def netlink_QdiscDel_def attempt_def
      bound_eth0_def world_eth0_def world0_def ingress_not_egress ingress_not_egress [symmetric] Let_def)

text \<open>\<open>eth0\<close>: 192.168.1.2 and 2001:db8::1 are stored, the link-local addresses and the
  second IPv4 address are not. A list with no IPv6 address leaves the IPv6 flag unset.\<close>

theorem BindLink_address_record_witness:
  "links world_eth0 ''eth0'' = Some eth0
   \<and> (\<exists>c' w'. BindLink env0 plane0 ''eth0'' world_eth0 = ((None, c'), w')
         \<and> IfindexIpMap w' 2 =
             Some \<lparr>Ip4 = [0, 0, 0xFFFF0000, 0x0201A8C0], Ip6 = [0xB80D0120, 0, 0, 0x01000000],
                    HasIp4 = True, HasIp6 = True\<rparr>)
   \<and> linkIp_loop env0 [[224, 0, 0, 251], [1, 2, 3], [10, 0, 0, 1]] zero_bpfIfIp =
       \<lparr>Ip4 = [0, 0, 0xFFFF0000, 0x0100000A], Ip6 = [0, 0, 0, 0],
        HasIp4 = True, HasIp6 = False\<rparr>"
proof -
  have l: "links world_eth0 ''eth0'' = Some eth0" by (simp add: world_eth0_def)
  have i: "Index eth0 = 2" by (simp add: eth0_def)
  from BindLink_address_record
    [of env0 "Addrs eth0" plane0 "''eth0''" world_eth0 None _ bound_eth0] BindLink_eth0 l
  have "IfindexIpMap bound_eth0 =
      (IfindexIpMap world_eth0)(word_of_int (Index eth0) \<mapsto> address_record env0 (Addrs eth0))"
    by auto
  then have m: "IfindexIpMap bound_eth0 2 =
      Some \<lparr>Ip4 = [0, 0, 0xFFFF0000, 0x0201A8C0], Ip6 = [0xB80D0120, 0, 0, 0x01000000],
             HasIp4 = True, HasIp6 = True\<rparr>"
    by (simp add: i record_eth0)
  have "linkIp_loop env0 [[224, 0, 0, 251], [1, 2, 3], [10, 0, 0, 1]] zero_bpfIfIp =
       \<lparr>Ip4 = [0, 0, 0xFFFF0000, 0x0100000A], Ip6 = [0, 0, 0, 0],
        HasIp4 = True, HasIp6 = False\<rparr>"
    using BindLink_address_record
      [of env0 "[[224, 0, 0, 251], [1, 2, 3], [10, 0, 0, 1]]" plane0 "''eth0''" world_eth0
        None plane0 bound_eth0]
    by (simp add: address_record_def AddrFromSlice_def env0_fields)
  with l m BindLink_eth0 show ?thesis by blast
qed

text \<open>
  C5 fails on the source. After a successful \<open>BindLink\<close> on \<open>eth0\<close> the qdisc and both
  filters are installed, and the three teardown actions registered are the deletion of the
  qdisc and, twice, the deletion of the ingress filter (line 285 deletes \<open>filter\<close>, not
  \<open>filterEgress\<close>). \<open>Close\<close> then asks for the ingress filter to be deleted twice, the
  second time in vain, and never for the egress filter.
\<close>

theorem BindLink_releases_ingress_filter_twice:
  "BindLink env0 plane0 ''eth0'' world_eth0 =
     ((None, plane0\<lparr>deferFuncs := [netlink_QdiscDel (clsact_qdisc eth0),
          netlink_FilterDel (ingress_filter env0 eth0),
          netlink_FilterDel (ingress_filter env0 eth0)]\<rparr>), bound_eth0)
   \<and> filters bound_eth0 = [ingress_filter env0 eth0, egress_filter env0 eth0]
   \<and> ingress_filter env0 eth0 \<noteq> egress_filter env0 eth0
   \<and> Close (plane0\<lparr>deferFuncs := [netlink_QdiscDel (clsact_qdisc eth0),
          netlink_FilterDel (ingress_filter env0 eth0),
          netlink_FilterDel (ingress_filter env0 eth0)]\<rparr>) bound_eth0 =
       (Some ENOENT, bound_eth0\<lparr>
          trace := trace bound_eth0 @ [FilterDel (ingress_filter env0 eth0),
             FilterDel (ingress_filter env0 eth0), QdiscDel (clsact_qdisc eth0)],
          qdiscs := [], filters := [egress_filter env0 eth0]\<rparr>)"
  using BindLink_eth0 Close_eth0 ingress_not_egress by (simp add: bound_eth0_def)

subsection \<open>Serving\<close>

lemma accept_loop_append:
  "accept_loop rs w = (Waiting, w1) \<Longrightarrow> accept_loop (rs @ later) w = accept_loop later w1"
proof (induction rs arbitrary: w)
  case Nil
  then show ?case by simp
next
  case (Cons r rs)
  then show ?case by (auto split: prod.splits iter.splits)
qed

lemma read_loop_append:
  "read_loop env rs w = (Waiting, w1) \<Longrightarrow> read_loop env (rs @ later) w = read_loop env later w1"
proof (induction rs arbitrary: w)
  case Nil
  then show ?case by simp
next
  case (Cons r rs)
  then show ?case by (auto split: prod.splits iter.splits)
qed

text \<open>
  C7. In the stream loop and in the datagram loop alike: when the loop is blocked in its
  call, whatever came before, and the call returns an error, the loop is left at once
  (what the call would return later is never asked for); the error is logged at error level
  unless its message contains \<open>use of closed network connection\<close>, in which case nothing is
  logged.
\<close>

theorem loops_end_on_error:
  "(accept_loop rs w = (Waiting, w1) \<longrightarrow>
      accept_loop (rs @ Inl err # later) w =
        (Exited,
         if Contains (Error err) ''use of closed network connection'' then w1
         else logf ErrorLevel ''Error when accept: %v'' [E err] w1))
   \<and> (read_loop env rrs u = (Waiting, u1) \<longrightarrow>
      read_loop env (rrs @ ReadErr peer err # later') u =
        (Exited,
         if Contains (Error err) ''use of closed network connection'' then u1
         else logf ErrorLevel ''ReadFromUDPAddrPort: %v, %v'' [AddrPort_String peer, E err] u1))"
  by (simp add: accept_loop_append read_loop_append accept_pass_def read_pass_def)

text \<open>Two connections accepted, then the listener closed: no log entry. Too many open
  files instead: one error entry. The same for the datagram loop.\<close>

theorem loops_end_on_error_witness:
  "accept_loop [Inr 1, Inr 2] world0 = (Waiting, world0\<lparr>goroutines := [HandleConn 1, HandleConn 2]\<rparr>)
   \<and> accept_loop ([Inr 1, Inr 2]
        @ Inl (New ''accept tcp 0.0.0.0:12345: use of closed network connection'') # [Inr 3]) world0
      = (Exited, world0\<lparr>goroutines := [HandleConn 1, HandleConn 2]\<rparr>)
   \<and> accept_loop ([Inr 1, Inr 2]
        @ Inl (New ''accept tcp 0.0.0.0:12345: too many open files'') # [Inr 3]) world0
      = (Exited, world0\<lparr>goroutines := [HandleConn 1, HandleConn 2],
           logs := [(ErrorLevel, ''Error when accept: %v'',
                     [E (New ''accept tcp 0.0.0.0:12345: too many open files'')])]\<rparr>)
   \<and> read_loop env0 [] world0 = (Waiting, world0)
   \<and> read_loop env0 ([] @ ReadErr None (New ''read udp 0.0.0.0:12345: use of closed network connection'') # [])
        world0 = (Exited, world0)
   \<and> read_loop env0 ([] @ ReadErr None (New ''read udp 0.0.0.0:12345: connection refused'') # [])
        world0
      = (Exited, world0\<lparr>logs := [(ErrorLevel, ''ReadFromUDPAddrPort: %v, %v'',
           [S ''invalid AddrPort'', E (New ''read udp 0.0.0.0:12345: connection refused'')])]\<rparr>)"
proof -
  have w: "accept_loop [Inr 1, Inr 2] world0
      = (Waiting, world0\<lparr>goroutines := [HandleConn 1, HandleConn 2]\<rparr>)"
    by (simp add: accept_pass_def go_def world0_def)
  have r: "read_loop env0 [] world0 = (Waiting, world0)" by simp
  have c1: "Contains ''accept tcp 0.0.0.0:12345: use of closed network connection''
      ''use of closed network connection''"
    "\<not> Contains ''accept tcp 0.0.0.0:12345: too many open files''
      ''use of closed network connection''"
    "Contains ''read udp 0.0.0.0:12345: use of closed network connection''
      ''use of closed network connection''"
    "\<not> Contains ''read udp 0.0.0.0:12345: connection refused''
      ''use of closed network connection''"
    by (simp_all add: Contains_def strings_Index_def)
  show ?thesis
    using loops_end_on_error [of "[Inr 1, Inr 2]" world0
        "world0\<lparr>goroutines := [HandleConn 1, HandleConn 2]\<rparr>"
        "New ''accept tcp 0.0.0.0:12345: use of closed network connection''" "[Inr 3]"
        env0 "[]" world0 world0 None "[]"]
      loops_end_on_error [of "[Inr 1, Inr 2]" world0
        "world0\<lparr>goroutines := [HandleConn 1, HandleConn 2]\<rparr>"
        "New ''accept tcp 0.0.0.0:12345: too many open files''" "[Inr 3]"
        env0 "[]" world0 world0 None "[]"]
      loops_end_on_error [of "[]" world0 world0
        "New ''read udp 0.0.0.0:12345: use of closed network connection''" "[]"
        env0 "[]" world0 world0 None "[]"]
      loops_end_on_error [of "[]" world0 world0
        "New ''read udp 0.0.0.0:12345: connection refused''" "[]"
        env0 "[]" world0 world0 None "[]"]
      w r
    by (simp add: c1 logf_def AddrPort_String_def world0_def)
qed

text \<open>
  C8. For every sequence of datagrams read without error, the datagram loop is still
  running after the last one (it is blocked in the next read): a datagram whose header does
  not parse costs one warning and nothing else, and every datagram whose header parses has
  been handed to the packet handler, in a goroutine of its own, with exactly the bytes from
  the parsed data offset on. The parser, which is in another file of the package, is taken
  to return an offset within the datagram; outside this the source panics.
\<close>

theorem datagram_loop_drops_or_hands_over:
  assumes "\<forall>(data, peer) \<in> set pkts. \<forall>hdr offset.
             ParseAddrHdr env data = Inr (hdr, offset) \<longrightarrow> 0 \<le> offset \<and> offset \<le> int (length data)"
  shows "read_loop env (map (\<lambda>(data, peer). ReadOk data peer) pkts) w =
     (Waiting, w\<lparr>logs := logs w @ dropped env pkts,
                 goroutines := goroutines w @ handed_over env pkts\<rparr>)"
  using assms
proof (induction pkts arbitrary: w)
  case Nil
  then show ?case by simp
next
  case (Cons p pkts)
  obtain data peer where p: "p = (data, peer)" by (cases p)
  from Cons.prems have rest: "\<forall>(data, peer) \<in> set pkts. \<forall>hdr offset.
             ParseAddrHdr env data = Inr (hdr, offset) \<longrightarrow> 0 \<le> offset \<and> offset \<le> int (length data)"
    by simp
  show ?case
  proof (cases "ParseAddrHdr env data")
    case (Inl err)
    then show ?thesis
      by (simp add: p read_pass_def Cons.IH [OF rest] logf_def)
  next
    case (Inr found)
    obtain hdr offset where f: "found = (hdr, offset)" by (cases found)
    from Cons.prems p Inr f have "0 \<le> offset \<and> offset \<le> int (length data)" by simp
    with Inr f show ?thesis
      by (simp add: p read_pass_def Cons.IH [OF rest] go_def)
  qed
qed

text \<open>Three datagrams: a header and three bytes, a malformed one, a header alone.\<close>

theorem datagram_loop_drops_or_hands_over_witness:
  "read_loop env0
     (map (\<lambda>(data, peer). ReadOk data peer)
        [([4, 10, 0, 0, 1, 0, 53, 1, 2, 3], peer0), ([9, 9], peer0),
         ([4, 10, 0, 0, 2, 1, 187], peer0)]) world0
   = (Waiting,
      world0\<lparr>logs := [(WarnLevel, ''No AddrPort presented'', [])],
        goroutines :=
          [HandlePkt [1, 2, 3] peer0 \<lparr>Dest = Addr4 [10, 0, 0, 1], Port = 53\<rparr>,
           HandlePkt [] peer0 \<lparr>Dest = Addr4 [10, 0, 0, 2], Port = 443\<rparr>]\<rparr>)"
proof -
  have p: "parse0 [4, 10, 0, 0, 1, 0, 53, 1, 2, 3] = Inr (\<lparr>Dest = Addr4 [10, 0, 0, 1], Port = 53\<rparr>, 7)"
    "parse0 [9, 9] = Inl (New ''bad address header'')"
    "parse0 [4, 10, 0, 0, 2, 1, 187] = Inr (\<lparr>Dest = Addr4 [10, 0, 0, 2], Port = 443\<rparr>, 7)"
    by (simp_all add: parse0_def)
  have e: "ParseAddrHdr env0 = parse0" by (simp add: env0_def)
  show ?thesis
    using datagram_loop_drops_or_hands_over [of
        "[([4, 10, 0, 0, 1, 0, 53, 1, 2, 3], peer0), ([9, 9], peer0),
          ([4, 10, 0, 0, 2, 1, 187], peer0)]" env0 world0]
    by (simp add: e p world0_def)
qed

lemma attempt_ctxDone:
  assumes "\<And>w1. ctxDone (snd (effect w1)) = ctxDone w1"
  shows "ctxDone (snd (attempt r effect w)) = ctxDone w"
  using assms [of "w\<lparr>trace := trace w @ [r]\<rparr>"]
  by (simp add: attempt_def Let_def split: option.splits)

lemma ctxDone_frames:
  "ctxDone (logf lvl fmt args w) = ctxDone w"
  "ctxDone (go t w) = ctxDone w"
  "ctxDone (close_listener port w) = ctxDone w"
  "ctxDone (close_lConn port w) = ctxDone w"
  "ctxDone (handler_returned t e w) = ctxDone w"
  "ctxDone (snd (accept_pass r w)) = ctxDone w"
  "ctxDone (snd (read_pass env rr w)) = ctxDone w"
  by (simp_all add: logf_def go_def close_listener_def close_lConn_def attempt_ctxDone
      handler_returned_def accept_pass_def read_pass_def Let_def
      split: option.splits sum.splits ReadResult.splits prod.splits)

lemma passD:
  "accept_pass r w = (i, w1) \<Longrightarrow> ctxDone w1 = ctxDone w"
  "read_pass env rr w = (i, w1) \<Longrightarrow> ctxDone w1 = ctxDone w"
  using ctxDone_frames(6) [of r w] ctxDone_frames(7) [of env rr w] by simp_all

lemma cancel_ctx_done: "ctxDone (snd (cancel_ctx k w)) = (ctxDone w)(k := True)"
  by (simp add: cancel_ctx_def)

lemma serving_inv_step: "serving_inv k s \<Longrightarrow> serving_inv k (serve_step env ev s)"
  unfolding serving_inv_def serve_step_def
  by (cases ev)
     (auto simp: ctxDone_frames cancel_ctx_done dest!: passD split: prod.splits iter.splits)

lemma serving_inv_serve: "serving_inv k s \<Longrightarrow> serving_inv k (serve env evs s)"
  by (induction evs arbitrary: s) (simp_all add: serving_inv_step)

lemma start_InrD:
  assumes "ListenAndServe_start env c port w = Inr s0"
  shows "\<exists>w1 w2 w3.
      net_Listen ''tcp'' (''0.0.0.0:'' @ Itoa (uint port)) w = (None, w1)
    \<and> net_ListenUDP ''udp'' port w1 = (None, w2)
    \<and> Update_ParamMap (BigEndianTproxyPortKey env) (ucast (swap16 env port)) w2 = (None, w3)
    \<and> s0 = \<lparr>plane = c\<lparr>deferFuncs := deferFuncs c @ [cancel_ctx (nextCtx w3)]\<rparr>,
             sworld = w3\<lparr>nextCtx := nextCtx w3 + 1, ctxDone := (ctxDone w3)(nextCtx w3 := False)\<rparr>,
             ctx = nextCtx w3, lport = port, tcpLoop = True, udpLoop = True,
             listenerOpen = True, lConnOpen = True, crashed = False, returned = None\<rparr>"
  using assms unfolding ListenAndServe_start_def Let_def
  by (auto split: prod.splits option.splits)

lemma start_inv:
  "ListenAndServe_start env c port w = Inr s0 \<Longrightarrow> serving_inv (ctx s0) s0"
  by (drule start_InrD) (auto simp: serving_inv_def)

lemma step_keeps:
  "plane (serve_step env ev s) = plane s" "lport (serve_step env ev s) = lport s"
  "ctx (serve_step env ev s) = ctx s"
  by (cases ev; simp add: serve_step_def split: prod.splits iter.splits)+

lemma serve_keeps:
  "plane (serve env evs s) = plane s" "ctx (serve env evs s) = ctx s"
  by (induction evs arbitrary: s) (simp_all add: step_keeps)

lemma Close_after_cancel:
  "Close (c\<lparr>deferFuncs := deferFuncs c @ [cancel_ctx k]\<rparr>) u = Close c (snd (cancel_ctx k u))"
  by (simp add: Close_invoke_each cancel_ctx_def split: prod.splits)

lemma closed_error_Contains:
  "Contains (Error (closed_error ''accept tcp'')) ''use of closed network connection''"
  "Contains (Error (closed_error ''read udp'')) ''use of closed network connection''"
  by (simp_all add: closed_error_def Contains_def strings_Index_def)

lemma step_loops_leave_result:
  "returned (serve_step env (Accepted r) s) = returned s"
  "returned (serve_step env (ReadFrom rr) s) = returned s"
  "returned (serve_step env (HandlerReturned t e) s) = returned s"
  "returned (serve_step env CancelCalled s) = returned s"
  by (simp_all add: serve_step_def split: prod.splits iter.splits)

lemma error_ends_loop:
  assumes "serving_inv k s" "\<not> crashed s"
  shows "\<not> tcpLoop (serve_step env (Accepted (Inl err)) s)
       \<and> ctxDone (sworld (serve_step env (Accepted (Inl err)) s)) k
       \<and> \<not> udpLoop (serve_step env (ReadFrom (ReadErr peer err)) s)
       \<and> ctxDone (sworld (serve_step env (ReadFrom (ReadErr peer err)) s)) k"
  using assms
  by (auto simp: serving_inv_def serve_step_def accept_pass_def read_pass_def cancel_ctx_done
      ctxDone_frames split: prod.splits iter.splits)

text \<open>
  C10. Once \<open>ListenAndServe\<close> has both listeners, has written the port and has registered
  its \<open>cancel\<close>, then whatever happens next, in whatever order: it has returned nothing or
  nil, never an error, and nil only with the context cancelled; the return of \<open>Accept\<close> or of
  the read in a loop never changes what \<open>ListenAndServe\<close> returns; an error returned to a
  loop ends the loop and cancels the context, and a loop that has ended has cancelled the
  context; with the context cancelled the caller's receive completes
  and \<open>ListenAndServe\<close> returns nil; after that return each loop ends when its blocking
  call next returns; the registered teardown action cancels the context, and it is the
  first thing \<open>Close\<close> invokes.
\<close>

theorem ListenAndServe_returns_nil:
  assumes start: "ListenAndServe_start env c port w = Inr s0"
    and s: "s = serve env evs s0"
  shows "(returned s = None \<or> returned s = Some None)
    \<and> (returned s = Some None \<longrightarrow> ctxDone (sworld s) (ctx s0))
    \<and> (\<not> tcpLoop s \<or> \<not> udpLoop s \<longrightarrow> ctxDone (sworld s) (ctx s0))
    \<and> returned (serve_step env (Accepted r) s) = returned s
    \<and> returned (serve_step env (ReadFrom rr) s) = returned s
    \<and> (\<not> crashed s \<longrightarrow>
          \<not> tcpLoop (serve_step env (Accepted (Inl err)) s)
        \<and> ctxDone (sworld (serve_step env (Accepted (Inl err)) s)) (ctx s0)
        \<and> \<not> udpLoop (serve_step env (ReadFrom (ReadErr peer err)) s)
        \<and> ctxDone (sworld (serve_step env (ReadFrom (ReadErr peer err)) s)) (ctx s0))
    \<and> (\<not> crashed s \<and> ctxDone (sworld s) (ctx s0) \<and> returned s = None \<longrightarrow>
          returned (serve_step env ContextDone s) = Some None)
    \<and> (\<not> crashed s \<and> returned s = Some None \<longrightarrow>
          \<not> tcpLoop (serve_step env (Accepted r) s) \<and> \<not> udpLoop (serve_step env (ReadFrom rr) s))
    \<and> (\<not> crashed s \<longrightarrow> ctxDone (sworld (serve_step env CancelCalled s)) (ctx s0))
    \<and> deferFuncs (plane s) = deferFuncs c @ [cancel_ctx (ctx s0)]
    \<and> Close (plane s) u = Close c (snd (cancel_ctx (ctx s0) u))
    \<and> ParamMap (sworld s0) (BigEndianTproxyPortKey env) = Some (ucast (swap16 env port))
    \<and> \<not> ctxDone (sworld s0) (ctx s0) \<and> returned s0 = None"
proof -
  from start_InrD [OF start] obtain w1 w2 w3 where
    u: "Update_ParamMap (BigEndianTproxyPortKey env) (ucast (swap16 env port)) w2 = (None, w3)"
    and s0: "s0 = \<lparr>plane = c\<lparr>deferFuncs := deferFuncs c @ [cancel_ctx (nextCtx w3)]\<rparr>,
             sworld = w3\<lparr>nextCtx := nextCtx w3 + 1, ctxDone := (ctxDone w3)(nextCtx w3 := False)\<rparr>,
             ctx = nextCtx w3, lport = port, tcpLoop = True, udpLoop = True,
             listenerOpen = True, lConnOpen = True, crashed = False, returned = None\<rparr>"
    by blast
  have inv: "serving_inv (ctx s0) s"
    unfolding s by (rule serving_inv_serve [OF start_inv [OF start]])
  have k: "ctx s = ctx s0" and p: "plane s = plane s0"
    unfolding s by (simp_all add: serve_keeps)
  have a: "returned s = None \<or> returned s = Some None"
    "returned s = Some None \<longrightarrow> ctxDone (sworld s) (ctx s0)"
    "\<not> tcpLoop s \<or> \<not> udpLoop s \<longrightarrow> ctxDone (sworld s) (ctx s0)"
    using inv by (auto simp: serving_inv_def)
  have b: "\<not> crashed s \<and> ctxDone (sworld s) (ctx s0) \<and> returned s = None \<longrightarrow>
          returned (serve_step env ContextDone s) = Some None"
    by (simp add: serve_step_def k)
  have closed: "\<not> listenerOpen s \<and> \<not> lConnOpen s" if "returned s = Some None"
    using inv that by (simp add: serving_inv_def)
  have d: "\<not> crashed s \<and> returned s = Some None \<longrightarrow>
          \<not> tcpLoop (serve_step env (Accepted r) s) \<and> \<not> udpLoop (serve_step env (ReadFrom rr) s)"
    using closed
    by (auto simp: serve_step_def accept_pass_def read_pass_def closed_error_Contains
        split: prod.splits iter.splits)
  have e: "\<not> crashed s \<longrightarrow> ctxDone (sworld (serve_step env CancelCalled s)) (ctx s0)"
    by (simp add: serve_step_def k cancel_ctx_done)
  have f: "deferFuncs (plane s) = deferFuncs c @ [cancel_ctx (ctx s0)]"
    by (simp add: p s0)
  have g: "Close (plane s) u = Close c (snd (cancel_ctx (ctx s0) u))"
    using Close_after_cancel [of c "ctx s0" u] by (simp add: p s0)
  have h: "ParamMap (sworld s0) (BigEndianTproxyPortKey env) = Some (ucast (swap16 env port))"
    using Update_ParamMap_NoneD [OF u] by (simp add: s0)
  have i: "\<not> ctxDone (sworld s0) (ctx s0) \<and> returned s0 = None" by (simp add: s0)
  note j = error_ends_loop [OF inv, of env err peer]
  from a b d e f g h i j show ?thesis by (simp add: step_loops_leave_result)
qed

lemma start0: "ListenAndServe_start env0 plane0 12345 world0 = Inr serving0"
proof -
  have "swap16 env0 = (\<lambda>x. push_bit 8 x OR drop_bit 8 x)" "BigEndianTproxyPortKey env0 = 1"
    by (simp_all add: env0_def)
  then show ?thesis
    by (simp add: ListenAndServe_start_def net_Listen_def net_ListenUDP_def Update_ParamMap_def
        attempt_def world0_def plane0_def serving0_def Let_def fun_upd_idem)
qed

text \<open>A failing \<open>Accept\<close> after one connection, or the teardown action alone, cancels the
  context; \<open>ListenAndServe\<close> then returns nil and both loops end.\<close>

theorem ListenAndServe_returns_nil_witness:
  "ListenAndServe_start env0 plane0 12345 world0 = Inr serving0
   \<and> returned (serve env0
        [Accepted (Inr 1), Accepted (Inl (New ''accept tcp 0.0.0.0:12345: too many open files''))]
        serving0) = None
   \<and> ctxDone (sworld (serve env0
        [Accepted (Inr 1), Accepted (Inl (New ''accept tcp 0.0.0.0:12345: too many open files''))]
        serving0)) 0
   \<and> returned (serve_step env0 ContextDone (serve env0
        [Accepted (Inr 1), Accepted (Inl (New ''accept tcp 0.0.0.0:12345: too many open files''))]
        serving0)) = Some None
   \<and> returned (serve env0 [CancelCalled, ContextDone] serving0) = Some None
   \<and> \<not> crashed (serve env0 [CancelCalled, ContextDone] serving0)
   \<and> \<not> tcpLoop (serve_step env0 (Accepted (Inr 2))
          (serve env0 [CancelCalled, ContextDone] serving0))
   \<and> \<not> udpLoop (serve_step env0 (ReadFrom (ReadOk [] peer0))
          (serve env0 [CancelCalled, ContextDone] serving0))"
proof -
  let ?evs = "[Accepted (Inr 1), Accepted (Inl (New ''accept tcp 0.0.0.0:12345: too many open files''))]"
  have c: "\<not> Contains ''accept tcp 0.0.0.0:12345: too many open files''
      ''use of closed network connection''"
    by (simp add: Contains_def strings_Index_def)
  have k: "ctx serving0 = 0" by (simp add: serving0_def)
  have a: "returned (serve env0 ?evs serving0) = None" "\<not> crashed (serve env0 ?evs serving0)"
    "\<not> tcpLoop (serve env0 ?evs serving0)"
    by (simp_all add: serve_step_def accept_pass_def c serving0_def split: prod.splits)
  have b: "returned (serve env0 [CancelCalled, ContextDone] serving0) = Some None"
    "\<not> crashed (serve env0 [CancelCalled, ContextDone] serving0)"
    by (simp_all add: serve_step_def serving0_def cancel_ctx_def)
  note t1 = ListenAndServe_returns_nil [OF start0 refl, where evs = ?evs and r = "Inr 2"
      and rr = "ReadOk [] peer0" and u = world0 and err = ErrNetClosed and peer = None]
  note t2 = ListenAndServe_returns_nil [OF start0 refl, where evs = "[CancelCalled, ContextDone]"
      and r = "Inr 2" and rr = "ReadOk [] peer0" and u = world0 and err = ErrNetClosed
      and peer = None]
  from t1 a have "ctxDone (sworld (serve env0 ?evs serving0)) 0
      \<and> returned (serve_step env0 ContextDone (serve env0 ?evs serving0)) = Some None"
    by (simp add: k)
  moreover from t2 b have
    "\<not> tcpLoop (serve_step env0 (Accepted (Inr 2)) (serve env0 [CancelCalled, ContextDone] serving0))
     \<and> \<not> udpLoop (serve_step env0 (ReadFrom (ReadOk [] peer0))
          (serve env0 [CancelCalled, ContextDone] serving0))"
    by simp
  ultimately show ?thesis using start0 a b by simp
qed

end
